theory Spec2Isabelle
  imports Main "HOL-Library.Word" "HOL-Library.List_Lexorder" "HOL-Library.AList"
begin

section \<open>JavaScript strings and values\<close>

text \<open>
  A JavaScript string is a sequence of UTF-16 code units. \<open>str16\<close> writes an ASCII
  literal as such a sequence (one code unit per character).
\<close>

type_synonym code_unit = "16 word"
type_synonym jsstring = "code_unit list"

definition str16 :: "string \<Rightarrow> jsstring" where
  "str16 cs = map of_char cs"

text \<open>
  The values a parsed JSON body, a route parameter or a missing property can hold.
  \<open>JUndefined\<close> is the value of a property that is absent. No handler computes with
  a number: all they ask of one is its type, whether it is truthy and what \<open>String()\<close>
  prints for it. So a number is held as its printed form, the string that
  \<open>Number.prototype.toString\<close> gives (\<open>5\<close>, \<open>-1.5\<close>, \<open>1e+21\<close>), which determines
  the number up to the sign of zero.
\<close>

datatype jsval =
    JUndefined
  | JNull
  | JBool bool
  | JNum jsstring
  | JStr jsstring
  | JArr "jsval list"
  | JObj "(jsstring \<times> jsval) list"

datatype js_type = TUndefined | TObject | TBoolean | TNumber | TString

fun typeof :: "jsval \<Rightarrow> js_type" where
  "typeof JUndefined = TUndefined"
| "typeof JNull = TObject"
| "typeof (JBool b) = TBoolean"
| "typeof (JNum n) = TNumber"
| "typeof (JStr s) = TString"
| "typeof (JArr xs) = TObject"
| "typeof (JObj kvs) = TObject"

text \<open>
  A method call on a value that has no such method throws. Thrown errors are values:
  \<open>Inl\<close> is the exception, \<open>Inr\<close> the normal result, and \<open>bindE\<close> sequences two
  computations, stopping at the first exception.
\<close>

datatype js_error = TypeError

fun bindE :: "js_error + 'a \<Rightarrow> ('a \<Rightarrow> js_error + 'b) \<Rightarrow> js_error + 'b" where
  "bindE (Inl e) f = Inl e"
| "bindE (Inr x) f = f x"

fun mapE :: "('a \<Rightarrow> js_error + 'b) \<Rightarrow> 'a list \<Rightarrow> js_error + 'b list" where
  "mapE f [] = Inr []"
| "mapE f (x # xs) = bindE (f x) (\<lambda>y. bindE (mapE f xs) (\<lambda>ys. Inr (y # ys)))"

subsection \<open>String.prototype.trim\<close>

text \<open>
  \<open>trim\<close> removes white space and line terminators from both ends: TAB, LF, VT, FF, CR,
  SPACE, NBSP, the Unicode space separators (U+1680, U+2000 to U+200A, U+202F, U+205F,
  U+3000), the line and paragraph separators U+2028 and U+2029, and U+FEFF.
\<close>

definition isWhiteSpace :: "code_unit \<Rightarrow> bool" where
  "isWhiteSpace c =
     (c \<in> set [0x09, 0x0A, 0x0B, 0x0C, 0x0D, 0x20, 0xA0, 0x1680, 0x2028, 0x2029,
               0x202F, 0x205F, 0x3000, 0xFEFF]
      \<or> (0x2000 \<le> c \<and> c \<le> 0x200A))"

definition trim :: "jsstring \<Rightarrow> jsstring" where
  "trim s = rev (dropWhile isWhiteSpace (rev (dropWhile isWhiteSpace s)))"

text \<open>\<open>v.trim()\<close> for an arbitrary value \<open>v\<close>: only a string has the method.\<close>

fun method_trim :: "jsval \<Rightarrow> js_error + jsstring" where
  "method_trim (JStr s) = Inr (trim s)"
| "method_trim v = Inl TypeError"

subsection \<open>String.prototype.split with a one-character separator\<close>

fun splitOn :: "code_unit \<Rightarrow> jsstring \<Rightarrow> jsstring \<Rightarrow> jsstring list" where
  "splitOn sep acc [] = [rev acc]"
| "splitOn sep acc (c # cs) =
     (if c = sep then rev acc # splitOn sep [] cs else splitOn sep (c # acc) cs)"

definition js_split :: "code_unit \<Rightarrow> jsstring \<Rightarrow> jsstring list" where
  "js_split sep s = splitOn sep [] s"

definition comma :: code_unit where
  "comma = 0x2C"

definition hyphen :: code_unit where
  "hyphen = 0x2D"

subsection \<open>The regular expression of normalizeDate\<close>

text \<open>
  \<open>/^\d{4}-\d{2}-\d{2}$/\<close> is a sequence of atoms, each repeated a fixed number of
  times, anchored at both ends of the input (no flag is set, so \<open>^\<close> and \<open>$\<close> are the
  ends of the whole string and \<open>\d\<close> is one of the ten ASCII digits).
\<close>

datatype atom = Digit | Ch code_unit

definition isDigit :: "code_unit \<Rightarrow> bool" where
  "isDigit c = (0x30 \<le> c \<and> c \<le> 0x39)"

fun atom_matches :: "atom \<Rightarrow> code_unit \<Rightarrow> bool" where
  "atom_matches Digit c = isDigit c"
| "atom_matches (Ch d) c = (c = d)"

fun match_rep :: "atom \<Rightarrow> nat \<Rightarrow> jsstring \<Rightarrow> jsstring option" where
  "match_rep a 0 s = Some s"
| "match_rep a (Suc n) [] = None"
| "match_rep a (Suc n) (c # cs) = (if atom_matches a c then match_rep a n cs else None)"

fun match_seq :: "(atom \<times> nat) list \<Rightarrow> jsstring \<Rightarrow> jsstring option" where
  "match_seq [] s = Some s"
| "match_seq ((a, n) # re) s =
     (case match_rep a n s of None \<Rightarrow> None | Some rest \<Rightarrow> match_seq re rest)"

definition regex_test :: "(atom \<times> nat) list \<Rightarrow> jsstring \<Rightarrow> bool" where
  "regex_test re s = (match_seq re s = Some [])"

definition date_regex :: "(atom \<times> nat) list" where
  "date_regex = [(Digit, 4), (Ch hyphen, 1), (Digit, 2), (Ch hyphen, 1), (Digit, 2)]"

section \<open>Helpers of index.js\<close>

text \<open>
  \<^verbatim>\<open>function isValidString(v) { return typeof v === "string" && v.trim().length > 0; }\<close>
\<close>

definition isValidString :: "jsval \<Rightarrow> js_error + bool" where
  "isValidString v =
     (if typeof v = TString then bindE (method_trim v) (\<lambda>t. Inr (0 < length t))
      else Inr False)"

text \<open>
  \<^verbatim>\<open>function normalizeDate(date) {
    if (!isValidString(date)) return null;
    const s = date.trim();
    const ok = /^\d{4}-\d{2}-\d{2}$/.test(s);
    return ok ? s : null; }\<close>
  The result \<open>null\<close> is \<open>None\<close>.
\<close>

definition normalizeDate :: "jsval \<Rightarrow> js_error + jsstring option" where
  "normalizeDate date =
     bindE (isValidString date) (\<lambda>valid.
       if \<not> valid then Inr None
       else bindE (method_trim date) (\<lambda>s.
         let ok = regex_test date_regex s in
         Inr (if ok then Some s else None)))"

text \<open>
  \<^verbatim>\<open>function normalizeTodo(todo) {
    if (Array.isArray(todo)) {
      return todo.map((x) => (typeof x === "string" ? x.trim() : ""))
                 .filter((x) => x.length > 0); }
    if (typeof todo === "string") {
      return todo.split(",").map((x) => x.trim()).filter((x) => x.length > 0); }
    return []; }\<close>
  The pieces of \<open>split\<close> are strings, so \<open>trim\<close> applies to them directly; an element
  of the array is an arbitrary value, so \<open>x.trim()\<close> is the method call.
\<close>

definition normalizeTodo :: "jsval \<Rightarrow> js_error + jsstring list" where
  "normalizeTodo todo =
     (case todo of
        JArr xs \<Rightarrow>
          bindE (mapE (\<lambda>x. if typeof x = TString then method_trim x else Inr []) xs)
            (\<lambda>ys. Inr (filter (\<lambda>x. 0 < length x) ys))
      | JStr s \<Rightarrow>
          Inr (filter (\<lambda>x. 0 < length x) (map trim (js_split comma s)))
      | _ \<Rightarrow> Inr [])"

text \<open>
  The expression \<^verbatim>\<open>isValidString(v) ? v.trim() : ""\<close>, which the diary handlers
  apply to \<open>contents\<close> and to \<open>thanks\<close>.
\<close>

definition trimOrEmpty :: "jsval \<Rightarrow> js_error + jsstring" where
  "trimOrEmpty v = bindE (isValidString v) (\<lambda>valid. if valid then method_trim v else Inr [])"

text \<open>
  \<^verbatim>\<open>!isValidString(a) || !isValidString(b) || ...\<close>: the operands are evaluated from
  the left, up to the first one that is not a valid string.
\<close>

fun someInvalid :: "jsval list \<Rightarrow> js_error + bool" where
  "someInvalid [] = Inr False"
| "someInvalid (v # vs) =
     bindE (isValidString v) (\<lambda>valid. if \<not> valid then Inr True else someInvalid vs)"

subsection \<open>Truthiness and String()\<close>

fun truthy :: "jsval \<Rightarrow> bool" where
  "truthy JUndefined = False"
| "truthy JNull = False"
| "truthy (JBool b) = b"
| "truthy (JNum printed) = (printed \<noteq> str16 ''0'' \<and> printed \<noteq> str16 ''NaN'')"
| "truthy (JStr s) = (s \<noteq> [])"
| "truthy (JArr xs) = True"
| "truthy (JObj kvs) = True"

fun join_comma :: "jsstring list \<Rightarrow> jsstring" where
  "join_comma [] = []"
| "join_comma [x] = x"
| "join_comma (x # y # ys) = x @ comma # join_comma (y # ys)"

text \<open>
  \<open>String(v)\<close>. A primitive value prints without fail. An object is asked for its
  \<open>toString\<close> and then its \<open>valueOf\<close>: a parsed object without a property of its own
  named \<open>toString\<close> inherits the method that prints \<open>[object Object]\<close>; with such a
  property, which is no function, neither method gives a primitive value and
  \<open>String\<close> throws. An array prints its elements from the left, joined by commas,
  with \<open>null\<close> and \<open>undefined\<close> printed as nothing, and throws if an element does.
\<close>

fun String_of :: "jsval \<Rightarrow> js_error + jsstring"
  and String_of_elements :: "jsval list \<Rightarrow> js_error + jsstring list" where
  "String_of JUndefined = Inr (str16 ''undefined'')"
| "String_of JNull = Inr (str16 ''null'')"
| "String_of (JBool b) = Inr (if b then str16 ''true'' else str16 ''false'')"
| "String_of (JNum printed) = Inr printed"
| "String_of (JStr s) = Inr s"
| "String_of (JArr xs) = bindE (String_of_elements xs) (\<lambda>parts. Inr (join_comma parts))"
| "String_of (JObj kvs) =
     (if str16 ''toString'' \<in> set (map fst kvs) then Inl TypeError
      else Inr (str16 ''[object Object]''))"
| "String_of_elements [] = Inr []"
| "String_of_elements (x # xs) =
     bindE (case x of JUndefined \<Rightarrow> Inr [] | JNull \<Rightarrow> Inr [] | _ \<Rightarrow> String_of x)
       (\<lambda>part. bindE (String_of_elements xs) (\<lambda>parts. Inr (part # parts)))"

section \<open>The in-memory stores\<close>

text \<open>
  A JavaScript \<open>Map\<close> keeps its entries in insertion order, and \<open>set\<close> on a key that is
  present replaces the value where it stands: an association list with
  \<open>AList.update\<close>.
\<close>

definition Map_get :: "('k \<times> 'v) list \<Rightarrow> 'k \<Rightarrow> 'v option" where
  "Map_get m k = map_of m k"

definition Map_has :: "('k \<times> 'v) list \<Rightarrow> 'k \<Rightarrow> bool" where
  "Map_has m k = (map_of m k \<noteq> None)"

definition Map_set :: "('k \<times> 'v) list \<Rightarrow> 'k \<Rightarrow> 'v \<Rightarrow> ('k \<times> 'v) list" where
  "Map_set m k v = AList.update k v m"

text \<open>
  \<^verbatim>\<open>// email -> { memberId, name, email, password }
  // date(YYYY-MM-DD) -> { todo: [], contents: string, thanks: string }\<close>
  The fields of a stored object are values of any type: that a stored entry holds an
  array of strings and two strings is a property to prove, not a type.
\<close>

record member =
  memberId :: nat
  name :: jsval
  email :: jsstring
  password :: jsval

record entry =
  todo :: jsval
  contents :: jsval
  thanks :: jsval

record server_state =
  nextMemberId :: nat
  membersByEmail :: "(jsstring \<times> member) list"
  loginState :: "(jsstring \<times> nat) list"
  diaryByDate :: "(jsstring \<times> entry) list"

definition initial_state :: server_state where
  "initial_state =
     \<lparr>nextMemberId = 1, membersByEmail = [], loginState = [], diaryByDate = []\<rparr>"

text \<open>The literal \<^verbatim>\<open>{ todo: [], contents: "", thanks: "" }\<close>.\<close>

definition default_entry :: entry where
  "default_entry = \<lparr>todo = JArr [], contents = JStr [], thanks = JStr []\<rparr>"

text \<open>The expression \<^verbatim>\<open>Array.isArray(x) && x.length > 0\<close>.\<close>

fun nonEmptyArray :: "jsval \<Rightarrow> bool" where
  "nonEmptyArray (JArr xs) = (0 < length xs)"
| "nonEmptyArray v = False"

text \<open>
  \<^verbatim>\<open>function getHaveArrays() {
    const haveContents = []; const haveTodos = [];
    for (const [date, entry] of diaryByDate.entries()) {
      if (isValidString(entry.contents)) haveContents.push(date);
      if (Array.isArray(entry.todo) && entry.todo.length > 0) haveTodos.push(date); }
    haveContents.sort(); haveTodos.sort();
    return { haveContents, haveTodos }; }\<close>
  The loop carries the two arrays; \<open>sort()\<close> without a comparator orders strings by
  their code units, which is the lexicographic order of \<open>jsstring\<close>.
\<close>

fun haveLoop ::
  "(jsstring \<times> entry) list \<Rightarrow> jsstring list \<Rightarrow> jsstring list \<Rightarrow>
   js_error + jsstring list \<times> jsstring list" where
  "haveLoop [] haveContents haveTodos = Inr (haveContents, haveTodos)"
| "haveLoop ((date, e) # rest) haveContents haveTodos =
     bindE (isValidString (contents e)) (\<lambda>valid.
       haveLoop rest
         (if valid then haveContents @ [date] else haveContents)
         (if nonEmptyArray (todo e) then haveTodos @ [date] else haveTodos))"

definition getHaveArrays :: "server_state \<Rightarrow> js_error + jsstring list \<times> jsstring list" where
  "getHaveArrays s =
     bindE (haveLoop (diaryByDate s) [] []) (\<lambda>(haveContents, haveTodos).
       Inr (sort haveContents, sort haveTodos))"

section \<open>Requests and responses\<close>

text \<open>
  \<open>req.body || {}\<close>, read through the property names the handlers destructure; a
  property the body does not have, or any property of a missing body, is
  \<open>JUndefined\<close>.
\<close>

record body =
  body_email :: jsval
  body_name :: jsval
  body_password :: jsval
  body_code :: jsval
  body_todo :: jsval
  body_contents :: jsval
  body_thanks :: jsval

definition empty_body :: body where
  "empty_body =
     \<lparr>body_email = JUndefined, body_name = JUndefined, body_password = JUndefined,
      body_code = JUndefined, body_todo = JUndefined, body_contents = JUndefined,
      body_thanks = JUndefined\<rparr>"

text \<open>
  What lies outside the process and the Google handler reads: the three environment
  variables, the answer of the token endpoint (\<open>access_token\<close> of its data, unless the
  call fails) and the answer of the userinfo endpoint (\<open>email\<close> and \<open>name\<close> of its
  data, unless the call fails).
\<close>

record google_env =
  GOOGLE_CLIENT_ID :: jsval
  GOOGLE_CLIENT_SECRET :: jsval
  GOOGLE_REDIRECT_URI :: jsval

datatype token_reply = Token_failed | Token jsval

datatype userinfo_reply = Userinfo_failed | Userinfo jsval jsval

datatype request =
    GetRoot
  | PostSignUp body
  | PostLogin body
  | PostAuthGoogle body google_env token_reply userinfo_reply
  | PostHome body
  | GetHome
  | PostDiary jsstring body
  | GetDiary jsstring
  | PutDiary jsstring body

datatype failure =
    Fields_required
  | Email_exists
  | Invalid_credentials
  | Code_missing
  | Env_missing
  | No_access_token
  | Email_not_found
  | OAuth_failed
  | Invalid_date

text \<open>
  A response is its status code and the data of its JSON body; every response but a
  failure has status 200.
\<close>

datatype response =
    Server_running
  | Failure nat failure
  | Signed_up nat jsval jsstring
  | Logged_in jsval
  | Google_logged_in jsval nat jsstring
  | Logged_out
  | Have_arrays "jsstring list" "jsstring list"
  | Presence bool bool
  | Entry_json entry

fun status :: "response \<Rightarrow> nat" where
  "status (Failure code f) = code"
| "status r = 200"

section \<open>Routes\<close>

text \<open>
  A handler takes the state of the three maps and the counter and returns its response
  and the state it leaves; an exception that escapes a handler is \<open>Inl\<close>.
  \<open>String.prototype.toLowerCase\<close> is the runtime's Unicode case mapping; the handlers
  take it as the parameter \<open>toLowerCase\<close>, and \<open>ascii_toLowerCase\<close> is what it does
  to a string of ASCII characters.
\<close>

definition ascii_toLowerCase :: "jsstring \<Rightarrow> jsstring" where
  "ascii_toLowerCase s = map (\<lambda>c. if 0x41 \<le> c \<and> c \<le> 0x5A then c + 0x20 else c) s"

text \<open>\<^verbatim>\<open>app.get("/", ...)\<close>\<close>

definition getRoot :: "server_state \<Rightarrow> js_error + response \<times> server_state" where
  "getRoot s = Inr (Server_running, s)"

text \<open>
  \<^verbatim>\<open>app.post("/SignUp", (req, res) => {
    const { email, name, password } = req.body || {};
    if (!isValidString(email) || !isValidString(name) || !isValidString(password)) {
      return res.status(400).json({ error: "email, name, password are required" }); }
    const key = email.trim().toLowerCase();
    if (membersByEmail.has(key)) {
      return res.status(409).json({ error: "email already exists" }); }
    const member = { memberId: nextMemberId++, name: name.trim(), email: key,
                     password: String(password) };
    membersByEmail.set(key, member);
    loginState.set(key, 0);
    return res.json({ memberId: member.memberId, name: member.name, email: member.email }); });\<close>
\<close>

definition signUp ::
  "(jsstring \<Rightarrow> jsstring) \<Rightarrow> server_state \<Rightarrow> body \<Rightarrow> js_error + response \<times> server_state" where
  "signUp toLowerCase s b =
     bindE (someInvalid [body_email b, body_name b, body_password b]) (\<lambda>invalid.
       if invalid then Inr (Failure 400 Fields_required, s)
       else bindE (method_trim (body_email b)) (\<lambda>trimmed.
         let key = toLowerCase trimmed in
         if Map_has (membersByEmail s) key then Inr (Failure 409 Email_exists, s)
         else bindE (method_trim (body_name b)) (\<lambda>trimmed_name.
              bindE (String_of (body_password b)) (\<lambda>printed.
           let m = \<lparr>memberId = nextMemberId s, name = JStr trimmed_name, email = key,
                     password = JStr printed\<rparr>;
               s1 = s\<lparr>nextMemberId := nextMemberId s + 1\<rparr>;
               s2 = s1\<lparr>membersByEmail := Map_set (membersByEmail s1) key m\<rparr>;
               s3 = s2\<lparr>loginState := Map_set (loginState s2) key 0\<rparr>
           in Inr (Signed_up (memberId m) (name m) (email m), s3)))))"

text \<open>
  \<^verbatim>\<open>app.post("/Login", (req, res) => {
    const { email, password } = req.body || {};
    if (!isValidString(email) || !isValidString(password)) {
      return res.status(400).json({ error: "email and password are required" }); }
    const key = email.trim().toLowerCase();
    const member = membersByEmail.get(key);
    if (!member || String(member.password) !== String(password)) {
      return res.status(401).json({ error: "invalid credentials", isLogined: 0 }); }
    loginState.set(key, 1);
    return res.json({ message: ..., isLogined: 1 }); });\<close>
\<close>

definition login ::
  "(jsstring \<Rightarrow> jsstring) \<Rightarrow> server_state \<Rightarrow> body \<Rightarrow> js_error + response \<times> server_state" where
  "login toLowerCase s b =
     bindE (someInvalid [body_email b, body_password b]) (\<lambda>invalid.
       if invalid then Inr (Failure 400 Fields_required, s)
       else bindE (method_trim (body_email b)) (\<lambda>trimmed.
         let key = toLowerCase trimmed in
         case Map_get (membersByEmail s) key of
           None \<Rightarrow> Inr (Failure 401 Invalid_credentials, s)
         | Some m \<Rightarrow>
             bindE (String_of (password m)) (\<lambda>stored.
             bindE (String_of (body_password b)) (\<lambda>given.
               if stored \<noteq> given
               then Inr (Failure 401 Invalid_credentials, s)
               else Inr (Logged_in (name m),
                         s\<lparr>loginState := Map_set (loginState s) key 1\<rparr>)))))"

text \<open>
  \<^verbatim>\<open>app.post("/auth/google", async (req, res) => {
    const { code } = req.body || {};
    if (!isValidString(code)) return res.status(400).json(...);
    ... if (!isValidString(clientId) || !isValidString(clientSecret) || !isValidString(redirectUri))
      return res.status(500).json(...);
    try {
      const tokenRes = await axios.post(...);
      const { access_token } = tokenRes.data || {};
      if (!access_token) return res.status(401).json(...);
      const userRes = await axios.get(...);
      const { email, name } = userRes.data || {};
      if (!email) return res.status(401).json(...);
      const key = String(email).toLowerCase();
      const displayName = isValidString(name) ? name : "Google User";
      if (!membersByEmail.has(key)) {
        const member = { memberId: nextMemberId++, name: displayName, email: key, password: null };
        membersByEmail.set(key, member);
        loginState.set(key, 0);
      } else {
        const m = membersByEmail.get(key);
        if (m && !isValidString(m.name)) m.name = displayName; }
      loginState.set(key, 1);
      const member = membersByEmail.get(key);
      return res.json({ message: ..., isLogined: 1, memberId: member.memberId, email: member.email });
    } catch (err) { return res.status(500).json(...); } });\<close>
  The handler touches the maps only after its last \<open>await\<close>, in one piece.
  \<open>googleSignIn\<close> is that piece; \<open>authGoogle\<close> is the handler, with an exception of the
  \<open>try\<close> block caught: a failed call, or \<open>String(email)\<close> throwing, which happens
  before any map is written.
\<close>

definition googleSignIn ::
  "(jsstring \<Rightarrow> jsstring) \<Rightarrow> server_state \<Rightarrow> jsval \<Rightarrow> jsval \<Rightarrow>
   js_error + response \<times> server_state" where
  "googleSignIn toLowerCase s email_field name_field =
     bindE (String_of email_field) (\<lambda>printed.
      let key = toLowerCase printed in
      bindE (isValidString name_field) (\<lambda>valid.
        let displayName = (if valid then name_field else JStr (str16 ''Google User'')) in
        bindE
          (case Map_get (membersByEmail s) key of
             None \<Rightarrow>
               let m = \<lparr>memberId = nextMemberId s, name = displayName, email = key,
                         password = JNull\<rparr>;
                   s1 = s\<lparr>nextMemberId := nextMemberId s + 1\<rparr>;
                   s2 = s1\<lparr>membersByEmail := Map_set (membersByEmail s1) key m\<rparr>
               in Inr (s2\<lparr>loginState := Map_set (loginState s2) key 0\<rparr>)
           | Some m \<Rightarrow>
               bindE (isValidString (name m)) (\<lambda>named.
                 if \<not> named
                 then Inr (s\<lparr>membersByEmail :=
                              Map_set (membersByEmail s) key (m\<lparr>name := displayName\<rparr>)\<rparr>)
                 else Inr s))
          (\<lambda>s3.
            let s4 = s3\<lparr>loginState := Map_set (loginState s3) key 1\<rparr> in
            case Map_get (membersByEmail s4) key of
              None \<Rightarrow> Inl TypeError
            | Some m \<Rightarrow> Inr (Google_logged_in (name m) (memberId m) (email m), s4))))"

definition authGoogle ::
  "(jsstring \<Rightarrow> jsstring) \<Rightarrow> server_state \<Rightarrow> body \<Rightarrow> google_env \<Rightarrow> token_reply \<Rightarrow>
   userinfo_reply \<Rightarrow> js_error + response \<times> server_state" where
  "authGoogle toLowerCase s b env token userinfo =
     bindE (someInvalid [body_code b]) (\<lambda>invalid.
       if invalid then Inr (Failure 400 Code_missing, s)
       else bindE (someInvalid
                     [GOOGLE_CLIENT_ID env, GOOGLE_CLIENT_SECRET env, GOOGLE_REDIRECT_URI env])
         (\<lambda>missing.
           if missing then Inr (Failure 500 Env_missing, s)
           else
             case token of
               Token_failed \<Rightarrow> Inr (Failure 500 OAuth_failed, s)
             | Token access_token \<Rightarrow>
                 if \<not> truthy access_token then Inr (Failure 401 No_access_token, s)
                 else
                   case userinfo of
                     Userinfo_failed \<Rightarrow> Inr (Failure 500 OAuth_failed, s)
                   | Userinfo email_field name_field \<Rightarrow>
                       if \<not> truthy email_field then Inr (Failure 401 Email_not_found, s)
                       else
                         case googleSignIn toLowerCase s email_field name_field of
                           Inl err \<Rightarrow> Inr (Failure 500 OAuth_failed, s)
                         | Inr result \<Rightarrow> Inr result))"

text \<open>
  \<^verbatim>\<open>app.post("/Home", (req, res) => {
    const { email } = req.body || {};
    if (isValidString(email)) {
      const key = email.trim().toLowerCase();
      if (loginState.has(key)) loginState.set(key, 0); }
    return res.json({ isLogined: 0 }); });\<close>
\<close>

definition logout ::
  "(jsstring \<Rightarrow> jsstring) \<Rightarrow> server_state \<Rightarrow> body \<Rightarrow> js_error + response \<times> server_state" where
  "logout toLowerCase s b =
     bindE (isValidString (body_email b)) (\<lambda>valid.
       if valid
       then bindE (method_trim (body_email b)) (\<lambda>trimmed.
         let key = toLowerCase trimmed in
         if Map_has (loginState s) key
         then Inr (Logged_out, s\<lparr>loginState := Map_set (loginState s) key 0\<rparr>)
         else Inr (Logged_out, s))
       else Inr (Logged_out, s))"

text \<open>
  \<^verbatim>\<open>app.get("/Home", (req, res) => {
    const { haveContents, haveTodos } = getHaveArrays();
    return res.json({ haveContents, haveTodos }); });\<close>
\<close>

definition getHome :: "server_state \<Rightarrow> js_error + response \<times> server_state" where
  "getHome s =
     bindE (getHaveArrays s) (\<lambda>(haveContents, haveTodos).
       Inr (Have_arrays haveContents haveTodos, s))"

text \<open>
  \<^verbatim>\<open>app.post("/diary/:date", (req, res) => {
    const date = normalizeDate(req.params.date);
    if (!date) return res.status(400).json({ error: "invalid date format (YYYY-MM-DD)" });
    const { todo, contents, thanks } = req.body || {};
    const todoArr = normalizeTodo(todo);
    const entry = { todo: todoArr,
                    contents: isValidString(contents) ? contents.trim() : "",
                    thanks: isValidString(thanks) ? thanks.trim() : "" };
    diaryByDate.set(date, entry);
    return res.json({ haveContents: isValidString(entry.contents),
                      haveTodos: Array.isArray(entry.todo) && entry.todo.length > 0 }); });\<close>
  The route parameter is a string.
\<close>

definition postDiary ::
  "server_state \<Rightarrow> jsstring \<Rightarrow> body \<Rightarrow> js_error + response \<times> server_state" where
  "postDiary s param b =
     bindE (normalizeDate (JStr param)) (\<lambda>date.
       case date of
         None \<Rightarrow> Inr (Failure 400 Invalid_date, s)
       | Some d \<Rightarrow>
           bindE (normalizeTodo (body_todo b)) (\<lambda>todoArr.
           bindE (trimOrEmpty (body_contents b)) (\<lambda>c.
           bindE (trimOrEmpty (body_thanks b)) (\<lambda>t.
             let e = \<lparr>todo = JArr (map JStr todoArr), contents = JStr c, thanks = JStr t\<rparr>;
                 s1 = s\<lparr>diaryByDate := Map_set (diaryByDate s) d e\<rparr>
             in bindE (isValidString (contents e)) (\<lambda>haveContents.
                  Inr (Presence haveContents (nonEmptyArray (todo e)), s1))))))"

text \<open>
  \<^verbatim>\<open>app.get("/diary/:date", (req, res) => {
    const date = normalizeDate(req.params.date);
    if (!date) return res.status(400).json({ error: "invalid date format (YYYY-MM-DD)" });
    const entry = diaryByDate.get(date) || { todo: [], contents: "", thanks: "" };
    return res.json(entry); });\<close>
\<close>

definition getDiary :: "server_state \<Rightarrow> jsstring \<Rightarrow> js_error + response \<times> server_state" where
  "getDiary s param =
     bindE (normalizeDate (JStr param)) (\<lambda>date.
       case date of
         None \<Rightarrow> Inr (Failure 400 Invalid_date, s)
       | Some d \<Rightarrow>
           let e = (case Map_get (diaryByDate s) d of Some stored \<Rightarrow> stored
                    | None \<Rightarrow> default_entry)
           in Inr (Entry_json e, s))"

text \<open>
  \<^verbatim>\<open>app.put("/diary/:date", (req, res) => {
    const date = normalizeDate(req.params.date);
    if (!date) return res.status(400).json({ error: "invalid date format (YYYY-MM-DD)" });
    const prev = diaryByDate.get(date) || { todo: [], contents: "", thanks: "" };
    const { todo, contents, thanks } = req.body || {};
    const updated = {
      todo: todo === undefined ? prev.todo : normalizeTodo(todo),
      contents: contents === undefined ? prev.contents : (isValidString(contents) ? contents.trim() : ""),
      thanks: thanks === undefined ? prev.thanks : (isValidString(thanks) ? thanks.trim() : "") };
    diaryByDate.set(date, updated);
    return res.json({ haveContents: isValidString(updated.contents),
                      haveTodos: Array.isArray(updated.todo) && updated.todo.length > 0 }); });\<close>
\<close>

definition putDiary ::
  "server_state \<Rightarrow> jsstring \<Rightarrow> body \<Rightarrow> js_error + response \<times> server_state" where
  "putDiary s param b =
     bindE (normalizeDate (JStr param)) (\<lambda>date.
       case date of
         None \<Rightarrow> Inr (Failure 400 Invalid_date, s)
       | Some d \<Rightarrow>
           let prev = (case Map_get (diaryByDate s) d of Some stored \<Rightarrow> stored
                       | None \<Rightarrow> default_entry)
           in
           bindE (if body_todo b = JUndefined then Inr (todo prev)
                  else bindE (normalizeTodo (body_todo b)) (\<lambda>xs. Inr (JArr (map JStr xs))))
             (\<lambda>td.
           bindE (if body_contents b = JUndefined then Inr (contents prev)
                  else bindE (trimOrEmpty (body_contents b)) (\<lambda>c. Inr (JStr c)))
             (\<lambda>co.
           bindE (if body_thanks b = JUndefined then Inr (thanks prev)
                  else bindE (trimOrEmpty (body_thanks b)) (\<lambda>t. Inr (JStr t)))
             (\<lambda>th.
             let updated = \<lparr>todo = td, contents = co, thanks = th\<rparr>;
                 s1 = s\<lparr>diaryByDate := Map_set (diaryByDate s) d updated\<rparr>
             in bindE (isValidString (contents updated)) (\<lambda>haveContents.
                  Inr (Presence haveContents (nonEmptyArray (todo updated)), s1))))))"

subsection \<open>The server: one request at a time\<close>

fun handle ::
  "(jsstring \<Rightarrow> jsstring) \<Rightarrow> server_state \<Rightarrow> request \<Rightarrow> js_error + response \<times> server_state" where
  "handle lc s GetRoot = getRoot s"
| "handle lc s (PostSignUp b) = signUp lc s b"
| "handle lc s (PostLogin b) = login lc s b"
| "handle lc s (PostAuthGoogle b env token userinfo) = authGoogle lc s b env token userinfo"
| "handle lc s (PostHome b) = logout lc s b"
| "handle lc s GetHome = getHome s"
| "handle lc s (PostDiary param b) = postDiary s param b"
| "handle lc s (GetDiary param) = getDiary s param"
| "handle lc s (PutDiary param b) = putDiary s param b"

text \<open>
  The states the server can be in: the state at start, and the state any handler leaves
  from a state the server can be in. (A handler that threw would leave no state here;
  \<open>reachable_handle_total\<close> below shows that none throws from such a state.)
\<close>

inductive reachable :: "(jsstring \<Rightarrow> jsstring) \<Rightarrow> server_state \<Rightarrow> bool"
  for lc :: "jsstring \<Rightarrow> jsstring" where
  reachable_init: "reachable lc initial_state"
| reachable_step: "reachable lc s \<Longrightarrow> handle lc s r = Inr (resp, s') \<Longrightarrow> reachable lc s'"

section \<open>What the specification says\<close>

text \<open>
  The date shape in the specification's words: four digits, hyphen, two digits, hyphen,
  two digits, and nothing else.
\<close>

definition spec_date_shape :: "jsstring \<Rightarrow> bool" where
  "spec_date_shape s =
     (length s = 10 \<and>
      list_all isDigit (take 4 s) \<and> s ! 4 = hyphen \<and>
      list_all isDigit (take 2 (drop 5 s)) \<and> s ! 7 = hyphen \<and>
      list_all isDigit (drop 8 s))"

text \<open>
  The date normalizer: the trimmed input for a non-empty string whose trimmed form has
  the date shape, the sentinel for every other input.
\<close>

definition spec_normalizeDate :: "jsval \<Rightarrow> jsstring option" where
  "spec_normalizeDate v =
     (case v of
        JStr s \<Rightarrow> if s \<noteq> [] \<and> spec_date_shape (trim s) then Some (trim s) else None
      | _ \<Rightarrow> None)"

text \<open>
  The todo normalizer. Of a sequence: keep the string-typed elements, trim each, drop
  the empty results. Of a string: split on the comma, trim each piece, drop the empty
  pieces. Of anything else: the empty sequence.
\<close>

fun strings_of :: "jsval list \<Rightarrow> jsstring list" where
  "strings_of [] = []"
| "strings_of (JStr s # vs) = s # strings_of vs"
| "strings_of (v # vs) = strings_of vs"

definition spec_normalizeTodo :: "jsval \<Rightarrow> jsstring list" where
  "spec_normalizeTodo v =
     (case v of
        JArr xs \<Rightarrow> filter (\<lambda>t. t \<noteq> []) (map trim (strings_of xs))
      | JStr s \<Rightarrow> filter (\<lambda>t. t \<noteq> []) (map trim (js_split comma s))
      | _ \<Rightarrow> [])"

text \<open>A string with a non-whitespace character.\<close>

definition nonblank :: "jsval \<Rightarrow> bool" where
  "nonblank v = (case v of JStr s \<Rightarrow> list_ex (\<lambda>c. \<not> isWhiteSpace c) s | _ \<Rightarrow> False)"

text \<open>
  The normalization of \<open>contents\<close> and of \<open>thanks\<close>: the trimmed string if the input is
  a string with a non-whitespace character, the empty string otherwise.
\<close>

definition spec_text :: "jsval \<Rightarrow> jsstring" where
  "spec_text v = (case v of JStr s \<Rightarrow> if nonblank v then trim s else [] | _ \<Rightarrow> [])"

text \<open>The normalized triple of a raw body.\<close>

definition spec_entry :: "body \<Rightarrow> entry" where
  "spec_entry b =
     \<lparr>todo = JArr (map JStr (spec_normalizeTodo (body_todo b))),
      contents = JStr (spec_text (body_contents b)),
      thanks = JStr (spec_text (body_thanks b))\<rparr>"

text \<open>
  The entry a merge starts from: the stored entry of the date, or the empty entry.
\<close>

definition base_entry :: "server_state \<Rightarrow> jsstring \<Rightarrow> entry" where
  "base_entry s d = (case Map_get (diaryByDate s) d of Some e \<Rightarrow> e | None \<Rightarrow> default_entry)"

text \<open>
  The merge of a raw body into an entry: a field that is not provided keeps the entry's
  value, a provided field is normalized as in the full write.
\<close>

definition spec_merge :: "entry \<Rightarrow> body \<Rightarrow> entry" where
  "spec_merge prev b =
     \<lparr>todo = (if body_todo b = JUndefined then todo prev else todo (spec_entry b)),
      contents = (if body_contents b = JUndefined then contents prev
                  else contents (spec_entry b)),
      thanks = (if body_thanks b = JUndefined then thanks prev else thanks (spec_entry b))\<rparr>"

text \<open>
  A well-formed entry: the todo field is an array of strings, contents and thanks are
  strings (so none of the three is \<open>null\<close> or \<open>undefined\<close>).
\<close>

fun is_string :: "jsval \<Rightarrow> bool" where
  "is_string (JStr s) = True"
| "is_string v = False"

fun is_string_array :: "jsval \<Rightarrow> bool" where
  "is_string_array (JArr xs) = list_all is_string xs"
| "is_string_array v = False"

definition wellformed_entry :: "entry \<Rightarrow> bool" where
  "wellformed_entry e = (is_string_array (todo e) \<and> is_string (contents e) \<and> is_string (thanks e))"

text \<open>
  A normalized entry: the todo field is an array of trimmed, non-empty strings, and
  contents and thanks are trimmed strings.
\<close>

fun trimmed_string :: "jsval \<Rightarrow> bool" where
  "trimmed_string (JStr s) = (trim s = s)"
| "trimmed_string v = False"

fun trimmed_item :: "jsval \<Rightarrow> bool" where
  "trimmed_item (JStr s) = (trim s = s \<and> s \<noteq> [])"
| "trimmed_item v = False"

fun trimmed_items :: "jsval \<Rightarrow> bool" where
  "trimmed_items (JArr xs) = list_all trimmed_item xs"
| "trimmed_items v = False"

definition normalized_entry :: "entry \<Rightarrow> bool" where
  "normalized_entry e =
     (trimmed_items (todo e) \<and> trimmed_string (contents e) \<and> trimmed_string (thanks e))"

text \<open>
  The invariant of the diary store: every date is stored once, is a normalized date,
  and holds a normalized entry.
\<close>

definition diary_invariant :: "(jsstring \<times> entry) list \<Rightarrow> bool" where
  "diary_invariant m =
     (distinct (map fst m) \<and>
      list_all (\<lambda>(d, e). spec_date_shape d \<and> normalized_entry e) m)"

text \<open>The characters of a string value (no characters for any other value).\<close>

fun chars_of :: "jsval \<Rightarrow> jsstring" where
  "chars_of (JStr s) = s"
| "chars_of v = []"

text \<open>
  The invariant of the account store: every member is stored under its own e-mail key,
  has an id below the counter, and has a string or \<open>null\<close> as its password.
\<close>

definition members_invariant :: "server_state \<Rightarrow> bool" where
  "members_invariant s =
     list_all (\<lambda>(k, m). email m = k \<and> memberId m < nextMemberId s \<and>
                        (password m = JNull \<or> is_string (password m)))
       (membersByEmail s)"

section \<open>Strings: trimming, matching, splitting\<close>

lemma dropWhile_hd_not: "dropWhile P xs \<noteq> [] \<Longrightarrow> \<not> P (hd (dropWhile P xs))"
  by (simp add: hd_dropWhile)

lemma trim_Nil: "trim [] = []"
  by (simp add: trim_def)

lemma trim_eq_Nil_iff: "trim s = [] \<longleftrightarrow> (\<forall>c\<in>set s. isWhiteSpace c)"
proof (cases "dropWhile isWhiteSpace s = []")
  case True
  then show ?thesis by (auto simp add: trim_def dest: set_dropWhileD)
next
  case False
  then have "hd (dropWhile isWhiteSpace s) \<in> set (dropWhile isWhiteSpace s)"
    and "\<not> isWhiteSpace (hd (dropWhile isWhiteSpace s))"
    by (simp_all add: hd_dropWhile)
  then have "trim s \<noteq> []"
    unfolding trim_def by (metis dropWhile_eq_Nil_conv rev_is_Nil_conv set_rev)
  moreover have "\<not> (\<forall>c\<in>set s. isWhiteSpace c)"
    using False by (simp add: dropWhile_eq_Nil_conv)
  ultimately show ?thesis by simp
qed

lemma trim_fixed: "s \<noteq> [] \<Longrightarrow> \<not> isWhiteSpace (hd s) \<Longrightarrow> \<not> isWhiteSpace (last s) \<Longrightarrow> trim s = s"
  by (metis dropWhile_eq_self_iff hd_rev rev_rev_ident trim_def)

lemma trim_ends: "trim s \<noteq> [] \<Longrightarrow> \<not> isWhiteSpace (hd (trim s)) \<and> \<not> isWhiteSpace (last (trim s))"
  by (metis (no_types, lifting) dropWhile_eq_Nil_conv dropWhile_hd_not
    dropWhile_idem dropWhile_last last_rev rev.simps(1) rev_rev_ident
    trim_def)

lemma trim_idem: "trim (trim s) = trim s"
proof (cases "trim s = []")
  case True
  then show ?thesis by (simp add: trim_Nil)
next
  case False
  then show ?thesis using trim_ends [of s] by (simp add: trim_fixed)
qed

lemma match_rep_eq:
  "match_rep a n s =
     (if n \<le> length s \<and> list_all (atom_matches a) (take n s) then Some (drop n s) else None)"
  by (induction a n s rule: match_rep.induct) auto

lemma atom_matches_Digit: "atom_matches Digit = isDigit"
  by (rule ext) simp

lemma take1_drop: "n < length s \<Longrightarrow> take (Suc 0) (drop n s) = [s ! n]"
  by (simp add: hd_drop_conv_nth take_Suc)

lemma date_regex_shape: "regex_test date_regex s = spec_date_shape s"
proof (cases "length s = 10")
  case True
  then show ?thesis
    by (auto simp add: regex_test_def date_regex_def spec_date_shape_def match_rep_eq
        take1_drop atom_matches_Digit)
next
  case False
  then show ?thesis
    by (auto simp add: regex_test_def date_regex_def spec_date_shape_def match_rep_eq
        atom_matches_Digit split: if_splits)
qed

lemma nonblank_JStr: "nonblank (JStr s) \<longleftrightarrow> trim s \<noteq> []"
  by (simp add: nonblank_def trim_eq_Nil_iff list_ex_iff)

lemma nonblank_typeof: "typeof v \<noteq> TString \<Longrightarrow> \<not> nonblank v"
  by (cases v) (simp_all add: nonblank_def)

lemma isValidString_eq: "isValidString v = Inr (nonblank v)"
  by (cases v) (simp_all add: isValidString_def nonblank_JStr, simp_all add: nonblank_def)

lemma trimOrEmpty_eq: "trimOrEmpty v = Inr (spec_text v)"
  by (cases v) (simp_all add: trimOrEmpty_def isValidString_eq spec_text_def, simp_all add: nonblank_def)

lemma someInvalid_eq: "someInvalid vs = Inr (list_ex (\<lambda>v. \<not> nonblank v) vs)"
  by (induction vs) (simp_all add: isValidString_eq)

lemma normalizeDate_eq: "normalizeDate v = Inr (spec_normalizeDate v)"
  by (cases v)
    (auto simp: normalizeDate_def spec_normalizeDate_def isValidString_def date_regex_shape
      trim_Nil spec_date_shape_def)

lemma mapE_trim:
  "mapE (\<lambda>x. if typeof x = TString then method_trim x else Inr []) xs =
     Inr (map (\<lambda>x. case x of JStr s \<Rightarrow> trim s | _ \<Rightarrow> []) xs)"
proof (induction xs)
  case Nil
  show ?case by simp
next
  case (Cons x xs)
  then show ?case by (cases x) simp_all
qed

lemma filter_strings_of:
  "filter (\<lambda>x. x \<noteq> []) (map (\<lambda>x. case x of JStr s \<Rightarrow> trim s | _ \<Rightarrow> []) xs) =
     filter (\<lambda>t. t \<noteq> []) (map trim (strings_of xs))"
  by (induction xs rule: strings_of.induct) simp_all

lemma normalizeTodo_eq: "normalizeTodo v = Inr (spec_normalizeTodo v)"
  by (cases v) (simp_all add: normalizeTodo_def spec_normalizeTodo_def mapE_trim filter_strings_of)

lemma spec_text_trimmed: "trim (spec_text v) = spec_text v"
  by (cases v) (simp_all add: spec_text_def trim_idem trim_Nil)

lemma spec_text_nonblank: "nonblank (JStr (spec_text v)) \<longleftrightarrow> spec_text v \<noteq> []"
  by (simp add: nonblank_JStr spec_text_trimmed)

lemma spec_todo_items: "t \<in> set (spec_normalizeTodo v) \<Longrightarrow> trim t = t \<and> t \<noteq> []"
  by (cases v) (auto simp: spec_normalizeTodo_def trim_idem)

lemma strings_of_JStr: "strings_of (map JStr ys) = ys"
  by (induction ys) simp_all

lemma normalized_list_fixed:
  "\<forall>t\<in>set ys. trim t = t \<and> t \<noteq> [] \<Longrightarrow> spec_normalizeTodo (JArr (map JStr ys)) = ys"
  by (induction ys) (simp_all add: spec_normalizeTodo_def strings_of_JStr)

lemma spec_normalizeTodo_idem:
  "spec_normalizeTodo (JArr (map JStr (spec_normalizeTodo v))) = spec_normalizeTodo v"
  by (rule normalized_list_fixed) (simp add: spec_todo_items)

lemma splitOn_nonempty: "splitOn sep acc s \<noteq> []"
  by (induction s arbitrary: acc) simp_all

lemma join_comma_Cons: "ps \<noteq> [] \<Longrightarrow> join_comma (p # ps) = p @ comma # join_comma ps"
  by (cases ps) simp_all

lemma splitOn_join: "join_comma (splitOn comma acc s) = rev acc @ s"
  by (induction s arbitrary: acc) (simp_all add: join_comma_Cons splitOn_nonempty)

lemma splitOn_pieces: "sep \<notin> set acc \<Longrightarrow> \<forall>p\<in>set (splitOn sep acc s). sep \<notin> set p"
proof (induction s arbitrary: acc)
  case Nil
  then show ?case by simp
next
  case (Cons c cs)
  show ?case
  proof (cases "c = sep")
    case True
    with Cons.prems Cons.IH [of "[]"] show ?thesis by simp
  next
    case False
    with Cons.prems Cons.IH [of "c # acc"] show ?thesis by simp
  qed
qed

lemma js_split_join: "join_comma (js_split comma s) = s"
  by (simp add: js_split_def splitOn_join)

lemma js_split_pieces: "p \<in> set (js_split sep s) \<Longrightarrow> sep \<notin> set p"
  using splitOn_pieces [of sep "[]" s] by (simp add: js_split_def)

section \<open>The handlers as equations\<close>

lemma Map_get_set_same: "Map_get (Map_set m k v) k = Some v"
  by (simp add: Map_get_def Map_set_def update_conv')

lemma Map_get_set_other: "k' \<noteq> k \<Longrightarrow> Map_get (Map_set m k v) k' = Map_get m k'"
  by (simp add: Map_get_def Map_set_def update_conv')

lemma Map_set_same_value: "Map_get m k = Some v \<Longrightarrow> Map_set m k v = m"
  by (simp add: Map_get_def Map_set_def update_triv)

lemma Map_has_get: "Map_has m k \<longleftrightarrow> Map_get m k \<noteq> None"
  by (simp add: Map_has_def Map_get_def)

lemma Map_set_distinct: "distinct (map fst m) \<Longrightarrow> distinct (map fst (Map_set m k v))"
  by (simp add: Map_set_def distinct_update)

lemma Map_set_list_all: "list_all P m \<Longrightarrow> P (k, v) \<Longrightarrow> list_all P (Map_set m k v)"
  unfolding Map_set_def by (induction m) auto

lemma Map_set_fresh: "Map_get m k = None \<Longrightarrow> Map_set m k v = m @ [(k, v)]"
  unfolding Map_set_def Map_get_def by (induction m) (auto split: if_splits)

lemma postDiary_eq:
  "postDiary s p b =
     (case spec_normalizeDate (JStr p) of
        None \<Rightarrow> Inr (Failure 400 Invalid_date, s)
      | Some d \<Rightarrow>
          Inr (Presence (spec_text (body_contents b) \<noteq> [])
                 (spec_normalizeTodo (body_todo b) \<noteq> []),
               s\<lparr>diaryByDate := Map_set (diaryByDate s) d (spec_entry b)\<rparr>))"
  by (simp add: postDiary_def normalizeDate_eq normalizeTodo_eq trimOrEmpty_eq isValidString_eq
      spec_entry_def spec_text_nonblank split: option.split)

lemma getDiary_eq:
  "getDiary s p =
     (case spec_normalizeDate (JStr p) of
        None \<Rightarrow> Inr (Failure 400 Invalid_date, s)
      | Some d \<Rightarrow> Inr (Entry_json (base_entry s d), s))"
  by (simp add: getDiary_def normalizeDate_eq base_entry_def split: option.split)

lemma putDiary_eq:
  "putDiary s p b =
     (case spec_normalizeDate (JStr p) of
        None \<Rightarrow> Inr (Failure 400 Invalid_date, s)
      | Some d \<Rightarrow>
          Inr (Presence (nonblank (contents (spec_merge (base_entry s d) b)))
                 (nonEmptyArray (todo (spec_merge (base_entry s d) b))),
               s\<lparr>diaryByDate := Map_set (diaryByDate s) d (spec_merge (base_entry s d) b)\<rparr>))"
  by (simp add: putDiary_def normalizeDate_eq normalizeTodo_eq trimOrEmpty_eq isValidString_eq
      spec_entry_def spec_merge_def base_entry_def Let_def split: option.split)

lemma haveLoop_eq:
  "haveLoop m hc ht =
     Inr (hc @ map fst (filter (\<lambda>(d, e). nonblank (contents e)) m),
          ht @ map fst (filter (\<lambda>(d, e). nonEmptyArray (todo e)) m))"
  by (induction m hc ht rule: haveLoop.induct) (simp_all add: isValidString_eq)

lemma getHaveArrays_eq:
  "getHaveArrays s =
     Inr (sort (map fst (filter (\<lambda>(d, e). nonblank (contents e)) (diaryByDate s))),
          sort (map fst (filter (\<lambda>(d, e). nonEmptyArray (todo e)) (diaryByDate s))))"
  by (simp add: getHaveArrays_def haveLoop_eq)

lemma bindE_Inr_iff: "bindE x f = Inr y \<longleftrightarrow> (\<exists>a. x = Inr a \<and> f a = Inr y)"
  by (cases x) simp_all

lemma nonblank_is_JStr: "nonblank v \<Longrightarrow> \<exists>s. v = JStr s"
  by (cases v) (simp_all add: nonblank_def)

lemma signUp_eq:
  "signUp lc s b =
     (if \<not> (nonblank (body_email b) \<and> nonblank (body_name b) \<and> nonblank (body_password b))
      then Inr (Failure 400 Fields_required, s)
      else if Map_has (membersByEmail s) (lc (trim (chars_of (body_email b))))
      then Inr (Failure 409 Email_exists, s)
      else Inr (Signed_up (nextMemberId s) (JStr (trim (chars_of (body_name b))))
                  (lc (trim (chars_of (body_email b)))),
                s\<lparr>nextMemberId := nextMemberId s + 1,
                  membersByEmail :=
                    Map_set (membersByEmail s) (lc (trim (chars_of (body_email b))))
                      \<lparr>memberId = nextMemberId s,
                       name = JStr (trim (chars_of (body_name b))),
                       email = lc (trim (chars_of (body_email b))),
                       password = JStr (chars_of (body_password b))\<rparr>,
                  loginState :=
                    Map_set (loginState s) (lc (trim (chars_of (body_email b)))) 0\<rparr>))"
proof (cases "nonblank (body_email b) \<and> nonblank (body_name b) \<and> nonblank (body_password b)")
  case True
  then obtain e n pw where
    "body_email b = JStr e" and "body_name b = JStr n" and "body_password b = JStr pw"
    using nonblank_is_JStr by blast
  with True show ?thesis
    by (simp add: signUp_def someInvalid_eq Let_def)
next
  case False
  then show ?thesis
    by (auto simp add: signUp_def someInvalid_eq)
qed

lemma login_eq:
  "login lc s b =
     (if \<not> (nonblank (body_email b) \<and> nonblank (body_password b))
      then Inr (Failure 400 Fields_required, s)
      else case Map_get (membersByEmail s) (lc (trim (chars_of (body_email b)))) of
             None \<Rightarrow> Inr (Failure 401 Invalid_credentials, s)
           | Some m \<Rightarrow>
               bindE (String_of (password m)) (\<lambda>stored.
                 if stored \<noteq> chars_of (body_password b)
                 then Inr (Failure 401 Invalid_credentials, s)
                 else Inr (Logged_in (name m),
                           s\<lparr>loginState :=
                               Map_set (loginState s) (lc (trim (chars_of (body_email b)))) 1\<rparr>)))"
proof (cases "nonblank (body_email b) \<and> nonblank (body_password b)")
  case True
  then obtain e pw where "body_email b = JStr e" and "body_password b = JStr pw"
    using nonblank_is_JStr by blast
  with True show ?thesis
    by (simp add: login_def someInvalid_eq Let_def split: option.split cong: if_cong)
next
  case False
  then show ?thesis
    by (auto simp add: login_def someInvalid_eq)
qed

lemma logout_eq:
  "logout lc s b =
     (if nonblank (body_email b) \<and> Map_has (loginState s) (lc (trim (chars_of (body_email b))))
      then Inr (Logged_out,
                s\<lparr>loginState := Map_set (loginState s) (lc (trim (chars_of (body_email b)))) 0\<rparr>)
      else Inr (Logged_out, s))"
  by (cases "body_email b") (simp_all add: logout_def isValidString_eq nonblank_def Let_def)

lemma googleSignIn_eq:
  "googleSignIn lc s e n =
     bindE (String_of e) (\<lambda>printed.
       case Map_get (membersByEmail s) (lc printed) of
         None \<Rightarrow>
           Inr (Google_logged_in (if nonblank n then n else JStr (str16 ''Google User''))
                  (nextMemberId s) (lc printed),
                s\<lparr>nextMemberId := nextMemberId s + 1,
                  membersByEmail :=
                    Map_set (membersByEmail s) (lc printed)
                      \<lparr>memberId = nextMemberId s,
                       name = (if nonblank n then n else JStr (str16 ''Google User'')),
                       email = lc printed, password = JNull\<rparr>,
                  loginState := Map_set (Map_set (loginState s) (lc printed) 0) (lc printed) 1\<rparr>)
       | Some m \<Rightarrow>
           if nonblank (name m)
           then Inr (Google_logged_in (name m) (memberId m) (email m),
                     s\<lparr>loginState := Map_set (loginState s) (lc printed) 1\<rparr>)
           else Inr (Google_logged_in (if nonblank n then n else JStr (str16 ''Google User''))
                       (memberId m) (email m),
                     s\<lparr>membersByEmail :=
                         Map_set (membersByEmail s) (lc printed)
                           (m\<lparr>name := (if nonblank n then n else JStr (str16 ''Google User''))\<rparr>),
                       loginState := Map_set (loginState s) (lc printed) 1\<rparr>))"
  by (cases "String_of e")
    (simp_all add: googleSignIn_def isValidString_eq Let_def Map_get_set_same split: option.split)

lemma authGoogle_cases:
  "authGoogle lc s b env token userinfo = Inr (resp, s') \<Longrightarrow>
     (s' = s \<and> status resp \<noteq> 200) \<or>
     (\<exists>e n. googleSignIn lc s e n = Inr (resp, s'))"
  by (auto simp: authGoogle_def someInvalid_eq
           split: if_splits token_reply.splits userinfo_reply.splits sum.splits)

lemma authGoogle_total: "\<exists>resp s'. authGoogle lc s b env token userinfo = Inr (resp, s')"
  by (auto simp: authGoogle_def someInvalid_eq
           split: if_splits token_reply.splits userinfo_reply.splits sum.splits)

section \<open>Invariants of the stores\<close>

lemma spec_normalizeDate_shape: "spec_normalizeDate v = Some d \<Longrightarrow> spec_date_shape d"
  by (cases v) (auto simp: spec_normalizeDate_def split: if_splits)

lemma trimmed_items_JStr:
  "list_all trimmed_item (map JStr ys) \<longleftrightarrow> (\<forall>t\<in>set ys. trim t = t \<and> t \<noteq> [])"
  by (simp add: list_all_iff)

lemma normalized_spec_entry: "normalized_entry (spec_entry b)"
  by (simp add: normalized_entry_def spec_entry_def trimmed_items_JStr spec_todo_items
      spec_text_trimmed)

lemma normalized_default_entry: "normalized_entry default_entry"
  by (simp add: normalized_entry_def default_entry_def trim_Nil)

lemma normalized_spec_merge: "normalized_entry prev \<Longrightarrow> normalized_entry (spec_merge prev b)"
  using normalized_spec_entry [of b] by (simp add: normalized_entry_def spec_merge_def)

lemma Map_get_in_set: "Map_get m k = Some v \<Longrightarrow> (k, v) \<in> set m"
  by (simp add: Map_get_def map_of_SomeD)

lemma Map_get_list_all: "list_all P m \<Longrightarrow> Map_get m k = Some v \<Longrightarrow> P (k, v)"
  using Map_get_in_set [of m k v] by (simp add: list_all_iff)

lemma normalized_base_entry: "diary_invariant (diaryByDate s) \<Longrightarrow> normalized_entry (base_entry s d)"
proof (cases "Map_get (diaryByDate s) d")
  case None
  then show ?thesis by (simp add: base_entry_def normalized_default_entry)
next
  case (Some e)
  assume "diary_invariant (diaryByDate s)"
  then have "list_all (\<lambda>(d, e). spec_date_shape d \<and> normalized_entry e) (diaryByDate s)"
    by (simp add: diary_invariant_def)
  from Map_get_list_all [OF this Some] Some show ?thesis
    by (simp add: base_entry_def)
qed

lemma diary_invariant_set:
  "diary_invariant m \<Longrightarrow> spec_date_shape d \<Longrightarrow> normalized_entry e \<Longrightarrow>
   diary_invariant (Map_set m d e)"
  by (simp add: diary_invariant_def Map_set_distinct Map_set_list_all)

lemma postDiary_invariant:
  "postDiary s p b = Inr (resp, s') \<Longrightarrow> diary_invariant (diaryByDate s) \<Longrightarrow>
   diary_invariant (diaryByDate s')"
  by (auto simp: postDiary_eq diary_invariant_set normalized_spec_entry spec_normalizeDate_shape
           split: option.splits)

lemma putDiary_invariant:
  "putDiary s p b = Inr (resp, s') \<Longrightarrow> diary_invariant (diaryByDate s) \<Longrightarrow>
   diary_invariant (diaryByDate s')"
  by (auto simp: putDiary_eq diary_invariant_set normalized_spec_merge normalized_base_entry
           spec_normalizeDate_shape split: option.splits)

lemma googleSignIn_diary: "googleSignIn lc s e n = Inr (resp, s') \<Longrightarrow> diaryByDate s' = diaryByDate s"
  by (auto simp: googleSignIn_eq bindE_Inr_iff split: option.splits if_splits)

lemma handle_diary_other:
  "handle lc s r = Inr (resp, s') \<Longrightarrow> (\<forall>p b. r \<noteq> PostDiary p b \<and> r \<noteq> PutDiary p b) \<Longrightarrow>
   diaryByDate s' = diaryByDate s"
proof (cases r)
  case (PostAuthGoogle b env token userinfo)
  assume "handle lc s r = Inr (resp, s')"
  with PostAuthGoogle authGoogle_cases [of lc s b env token userinfo resp s'] googleSignIn_diary
  show ?thesis by auto
qed (auto simp: getRoot_def signUp_eq login_eq logout_eq getHome_def getHaveArrays_eq getDiary_eq
       bindE_Inr_iff split: option.splits if_splits)

lemma handle_diary_invariant:
  "handle lc s r = Inr (resp, s') \<Longrightarrow> diary_invariant (diaryByDate s) \<Longrightarrow>
   diary_invariant (diaryByDate s')"
proof (cases r)
  case (PostDiary p b)
  then show "handle lc s r = Inr (resp, s') \<Longrightarrow> diary_invariant (diaryByDate s) \<Longrightarrow> ?thesis"
    using postDiary_invariant by simp
next
  case (PutDiary p b)
  then show "handle lc s r = Inr (resp, s') \<Longrightarrow> diary_invariant (diaryByDate s) \<Longrightarrow> ?thesis"
    using putDiary_invariant by simp
qed (use handle_diary_other [of lc s r resp s'] in simp_all)

lemma members_list_all_mono:
  "list_all (\<lambda>(k, m). email m = k \<and> memberId m < n \<and> P m) ms \<Longrightarrow>
   list_all (\<lambda>(k, m). email m = k \<and> memberId m < Suc n \<and> P m) ms"
  by (induction ms) auto

lemma signUp_members:
  "signUp lc s b = Inr (resp, s') \<Longrightarrow> members_invariant s \<Longrightarrow> members_invariant s'"
  by (auto simp: signUp_eq members_invariant_def members_list_all_mono Map_set_list_all
           split: if_splits)

lemma googleSignIn_members:
  assumes run: "googleSignIn lc s e n = Inr (resp, s')" and inv: "members_invariant s"
  shows "members_invariant s'"
proof -
  from run obtain printed where printed: "String_of e = Inr printed"
    by (auto simp: googleSignIn_eq bindE_Inr_iff)
  from inv have all:
    "list_all (\<lambda>(k, m). email m = k \<and> memberId m < nextMemberId s \<and>
                        (password m = JNull \<or> is_string (password m))) (membersByEmail s)"
    by (simp add: members_invariant_def)
  show ?thesis
  proof (cases "Map_get (membersByEmail s) (lc printed)")
    case None
    with run printed all show ?thesis
      by (auto simp: googleSignIn_eq members_invariant_def members_list_all_mono Map_set_list_all)
  next
    case (Some m)
    from Map_get_list_all [OF all Some]
    have "email m = lc printed" and "memberId m < nextMemberId s"
      and "password m = JNull \<or> is_string (password m)"
      by simp_all
    with run printed Some all show ?thesis
      by (auto simp: googleSignIn_eq members_invariant_def Map_set_list_all split: if_splits)
  qed
qed

lemma handle_members_invariant:
  "handle lc s r = Inr (resp, s') \<Longrightarrow> members_invariant s \<Longrightarrow> members_invariant s'"
proof (cases r)
  case (PostSignUp b)
  then show "handle lc s r = Inr (resp, s') \<Longrightarrow> members_invariant s \<Longrightarrow> ?thesis"
    using signUp_members by simp
next
  case (PostAuthGoogle b env token userinfo)
  assume "handle lc s r = Inr (resp, s')" and "members_invariant s"
  with PostAuthGoogle authGoogle_cases [of lc s b env token userinfo resp s'] googleSignIn_members
  show ?thesis by auto
qed (auto simp: getRoot_def login_eq logout_eq getHome_def getHaveArrays_eq getDiary_eq
       postDiary_eq putDiary_eq members_invariant_def bindE_Inr_iff
       split: option.splits if_splits)

lemma reachable_invariants:
  "reachable lc s \<Longrightarrow> diary_invariant (diaryByDate s) \<and> members_invariant s"
proof (induction rule: reachable.induct)
  case reachable_init
  show ?case by (simp add: initial_state_def diary_invariant_def members_invariant_def)
next
  case (reachable_step s r resp s')
  then show ?case using handle_diary_invariant handle_members_invariant by blast
qed

text \<open>From a state the server can be in, no handler throws.\<close>

lemma stored_password_prints:
  "members_invariant s \<Longrightarrow> Map_get (membersByEmail s) k = Some m \<Longrightarrow>
   \<exists>printed. String_of (password m) = Inr printed"
proof -
  assume "members_invariant s" and stored: "Map_get (membersByEmail s) k = Some m"
  then have "list_all (\<lambda>(k, m). email m = k \<and> memberId m < nextMemberId s \<and>
                        (password m = JNull \<or> is_string (password m))) (membersByEmail s)"
    by (simp add: members_invariant_def)
  from Map_get_list_all [OF this stored] show ?thesis
    by (cases "password m") auto
qed

lemma reachable_handle_total:
  assumes "reachable lc s"
  shows "\<exists>resp s'. handle lc s r = Inr (resp, s')"
proof (cases r)
  case (PostAuthGoogle b env token userinfo)
  then show ?thesis using authGoogle_total by simp
next
  case (PostLogin b)
  from assms have "members_invariant s" by (simp add: reachable_invariants)
  from stored_password_prints [OF this] PostLogin show ?thesis
    by (fastforce simp add: login_eq split: option.split)
qed (simp_all add: getRoot_def signUp_eq logout_eq getHome_def getHaveArrays_eq
       postDiary_eq getDiary_eq putDiary_eq split: option.split)

lemma normalized_wellformed: "normalized_entry e \<Longrightarrow> wellformed_entry e"
proof -
  have item: "trimmed_item v \<Longrightarrow> is_string v" for v by (cases v) simp_all
  have str: "trimmed_string v \<Longrightarrow> is_string v" for v by (cases v) simp_all
  have arr: "trimmed_items v \<Longrightarrow> is_string_array v" for v
    by (cases v) (auto simp: list_all_iff item)
  assume "normalized_entry e"
  then show ?thesis by (simp add: normalized_entry_def wellformed_entry_def str arr)
qed

lemma trimmed_string_nonblank: "trimmed_string v \<Longrightarrow> nonblank v \<longleftrightarrow> v \<noteq> JStr []"
  by (cases v) (auto simp: nonblank_JStr)

lemma trimmed_items_nonEmpty: "trimmed_items v \<Longrightarrow> nonEmptyArray v \<longleftrightarrow> v \<noteq> JArr []"
  by (cases v) auto

lemma diary_invariant_lookup:
  "diary_invariant m \<Longrightarrow> Map_get m d = Some e \<longleftrightarrow> (d, e) \<in> set m"
  by (simp add: diary_invariant_def Map_get_def)

lemma diary_invariant_entry:
  "diary_invariant m \<Longrightarrow> (d, e) \<in> set m \<Longrightarrow> normalized_entry e"
  by (auto simp: diary_invariant_def list_all_iff)

lemma have_dates_set:
  assumes "diary_invariant m"
  shows "set (map fst (filter (\<lambda>(d, e). nonblank (contents e)) m)) =
           {d. \<exists>e. Map_get m d = Some e \<and> contents e \<noteq> JStr []}"
    and "set (map fst (filter (\<lambda>(d, e). nonEmptyArray (todo e)) m)) =
           {d. \<exists>e. Map_get m d = Some e \<and> todo e \<noteq> JArr []}"
proof -
  have c: "nonblank (contents e) \<longleftrightarrow> contents e \<noteq> JStr []" if "(d, e) \<in> set m" for d e
    using diary_invariant_entry [OF assms that]
    by (simp add: normalized_entry_def trimmed_string_nonblank)
  have t: "nonEmptyArray (todo e) \<longleftrightarrow> todo e \<noteq> JArr []" if "(d, e) \<in> set m" for d e
    using diary_invariant_entry [OF assms that]
    by (simp add: normalized_entry_def trimmed_items_nonEmpty)
  show "set (map fst (filter (\<lambda>(d, e). nonblank (contents e)) m)) =
           {d. \<exists>e. Map_get m d = Some e \<and> contents e \<noteq> JStr []}"
    using c by (force simp: diary_invariant_lookup [OF assms])
  show "set (map fst (filter (\<lambda>(d, e). nonEmptyArray (todo e)) m)) =
           {d. \<exists>e. Map_get m d = Some e \<and> todo e \<noteq> JArr []}"
    using t by (force simp: diary_invariant_lookup [OF assms])
qed

text \<open>
  The order \<open>sort\<close> and \<open>sorted\<close> use on strings compares code units from the left,
  and a proper prefix comes first.
\<close>

lemma jsstring_order:
  "[] \<le> (y :: jsstring) \<and> \<not> (a # x \<le> ([] :: jsstring)) \<and>
   (a # x \<le> b # y) = (a < b \<or> a = b \<and> x \<le> y)"
  by simp

lemma have_dates_distinct: "diary_invariant m \<Longrightarrow> distinct (map fst (filter P m))"
  by (simp add: diary_invariant_def distinct_map_filter)

text \<open>The definitions a concrete request is evaluated with.\<close>

lemmas eval_simps =
  str16_def trim_def isWhiteSpace_def isDigit_def hyphen_def comma_def
  spec_normalizeDate_def spec_date_shape_def spec_normalizeTodo_def spec_text_def nonblank_def
  spec_entry_def spec_merge_def base_entry_def default_entry_def
  Map_get_def Map_set_def Map_has_def js_split_def empty_body_def initial_state_def

section \<open>Well-formed entries, failures, member ids\<close>

lemma Map_get_set: "Map_get (Map_set m k v) k' = (if k' = k then Some v else Map_get m k')"
  by (simp add: Map_get_set_same Map_get_set_other)

lemma wellformed_spec_entry: "wellformed_entry (spec_entry b)"
  by (simp add: normalized_wellformed normalized_spec_entry)

lemma wellformed_spec_merge: "wellformed_entry prev \<Longrightarrow> wellformed_entry (spec_merge prev b)"
  using wellformed_spec_entry [of b] by (simp add: wellformed_entry_def spec_merge_def)

lemma wellformed_base_entry:
  "\<forall>d e. Map_get (diaryByDate s) d = Some e \<longrightarrow> wellformed_entry e \<Longrightarrow>
   wellformed_entry (base_entry s d)"
  by (cases "Map_get (diaryByDate s) d")
    (simp_all add: base_entry_def normalized_wellformed normalized_default_entry)

lemma postDiary_wellformed:
  assumes "\<forall>d e. Map_get (diaryByDate s) d = Some e \<longrightarrow> wellformed_entry e"
    and "postDiary s p b = Inr (resp, s')"
  shows "\<forall>d e. Map_get (diaryByDate s') d = Some e \<longrightarrow> wellformed_entry e"
  using assms wellformed_spec_entry [of b]
  by (auto simp: postDiary_eq Map_get_set split: option.splits if_splits)

lemma putDiary_wellformed:
  assumes "\<forall>d e. Map_get (diaryByDate s) d = Some e \<longrightarrow> wellformed_entry e"
    and "putDiary s p b = Inr (resp, s')"
  shows "\<forall>d e. Map_get (diaryByDate s') d = Some e \<longrightarrow> wellformed_entry e"
  using assms wellformed_spec_merge [OF wellformed_base_entry [OF assms(1)], of _ b]
  by (auto simp: putDiary_eq Map_get_set split: option.splits if_splits)

lemma reachable_wellformed:
  "reachable lc s \<Longrightarrow> Map_get (diaryByDate s) d = Some e \<Longrightarrow> wellformed_entry e"
  using reachable_invariants [of lc s] diary_invariant_lookup [of "diaryByDate s" d e]
    diary_invariant_entry [of "diaryByDate s" d e]
  by (simp add: normalized_wellformed)

lemma googleSignIn_status: "googleSignIn lc s e n = Inr (resp, s') \<Longrightarrow> status resp = 200"
  by (auto simp: googleSignIn_eq bindE_Inr_iff split: option.splits if_splits)

lemma handle_failure_keeps_state:
  assumes "handle lc s r = Inr (resp, s')" and "status resp \<noteq> 200"
  shows "s' = s"
proof (cases r)
  case (PostAuthGoogle b env token userinfo)
  with assms authGoogle_cases [of lc s b env token userinfo resp s'] googleSignIn_status
  show ?thesis by auto
qed (use assms in \<open>auto simp: getRoot_def signUp_eq login_eq logout_eq getHome_def
       getHaveArrays_eq postDiary_eq getDiary_eq putDiary_eq bindE_Inr_iff
       split: option.splits if_splits\<close>)

lemma reachable_member_ids:
  "reachable lc s \<Longrightarrow> Map_get (membersByEmail s) k = Some m \<Longrightarrow> memberId m < nextMemberId s"
proof -
  assume "reachable lc s" and stored: "Map_get (membersByEmail s) k = Some m"
  then have "list_all (\<lambda>(k, m). email m = k \<and> memberId m < nextMemberId s \<and>
                         (password m = JNull \<or> is_string (password m))) (membersByEmail s)"
    using reachable_invariants [of lc s] by (simp add: members_invariant_def)
  from Map_get_list_all [OF this stored] show ?thesis by simp
qed

section \<open>The claims\<close>

text \<open>
  Claim C1. For every valid date and every raw body, the full write (POST /diary/:date)
  followed by the read (GET /diary/:date) of the same normalized date returns exactly
  the normalized triple that was stored: the todo list is the specification's todo
  normalizer of the raw todo (which is what \<open>normalizeTodo\<close> returns), contents is the
  trimmed contents if that is a string with a non-whitespace character and the empty
  string otherwise, and thanks likewise.
\<close>

theorem replace_then_read:
  assumes "normalizeDate (JStr p) = Inr (Some d)" and "normalizeDate (JStr q) = Inr (Some d)"
  shows "\<exists>resp s1.
           postDiary s p b = Inr (resp, s1) \<and>
           getDiary s1 q = Inr (Entry_json (spec_entry b), s1) \<and>
           spec_entry b =
             \<lparr>todo = JArr (map JStr (spec_normalizeTodo (body_todo b))),
              contents = JStr (spec_text (body_contents b)),
              thanks = JStr (spec_text (body_thanks b))\<rparr> \<and>
           normalizeTodo (body_todo b) = Inr (spec_normalizeTodo (body_todo b))"
  using assms
  by (simp add: normalizeDate_eq postDiary_eq getDiary_eq normalizeTodo_eq base_entry_def
      Map_get_set_same spec_entry_def)

text \<open>The specification's scenario, read back through a padded route parameter.\<close>

theorem replace_then_read_witness:
  "normalizeDate (JStr (str16 ''2024-05-01'')) = Inr (Some (str16 ''2024-05-01'')) \<and>
   normalizeDate (JStr (str16 '' 2024-05-01'')) = Inr (Some (str16 ''2024-05-01'')) \<and>
   (\<exists>resp s1.
      postDiary initial_state (str16 ''2024-05-01'')
        (empty_body\<lparr>body_todo := JStr (str16 ''a, b ,,c''),
                     body_contents := JStr (str16 '' hi ''),
                     body_thanks := JStr []\<rparr>) = Inr (resp, s1) \<and>
      getDiary s1 (str16 '' 2024-05-01'') =
        Inr (Entry_json \<lparr>todo = JArr [JStr (str16 ''a''), JStr (str16 ''b''), JStr (str16 ''c'')],
                         contents = JStr (str16 ''hi''), thanks = JStr []\<rparr>, s1))"
proof -
  have d1: "normalizeDate (JStr (str16 ''2024-05-01'')) = Inr (Some (str16 ''2024-05-01''))"
    by (simp add: normalizeDate_eq spec_normalizeDate_def spec_date_shape_def str16_def
        trim_def isWhiteSpace_def isDigit_def hyphen_def)
  have d2: "normalizeDate (JStr (str16 '' 2024-05-01'')) = Inr (Some (str16 ''2024-05-01''))"
    by (simp add: normalizeDate_eq spec_normalizeDate_def spec_date_shape_def str16_def
        trim_def isWhiteSpace_def isDigit_def hyphen_def)
  have items: "spec_normalizeTodo (JStr (str16 ''a, b ,,c'')) = [str16 ''a'', str16 ''b'', str16 ''c'']"
    by (simp add: spec_normalizeTodo_def js_split_def comma_def str16_def trim_def isWhiteSpace_def)
  have texts: "spec_text (JStr (str16 '' hi '')) = str16 ''hi''" "spec_text (JStr []) = []"
    by (simp_all add: spec_text_def nonblank_def str16_def trim_def isWhiteSpace_def)
  from replace_then_read [OF d1 d2, of initial_state
      "empty_body\<lparr>body_todo := JStr (str16 ''a, b ,,c''),
                   body_contents := JStr (str16 '' hi ''), body_thanks := JStr []\<rparr>"]
  show ?thesis using d1 d2 items texts by (auto simp: empty_body_def)
qed

text \<open>
  Claim C2. For every valid date, the merge (PUT /diary/:date) treats the three fields
  independently: a field that is not provided keeps the value of the entry stored at
  the date (of the empty entry if there is none), and a provided field gets the value
  the full write (POST) of the same body stores. So a merge that provides no field
  leaves an existing entry, and the whole state, as it was; and a merge that provides
  only contents keeps the todo list and thanks.
\<close>

theorem merge_keeps_unprovided_fields:
  assumes "normalizeDate (JStr p) = Inr (Some d)"
  shows "\<exists>resp s1 merged resp' s2 replaced.
           putDiary s p b = Inr (resp, s1) \<and>
           s1 = s\<lparr>diaryByDate := Map_set (diaryByDate s) d merged\<rparr> \<and>
           Map_get (diaryByDate s1) d = Some merged \<and>
           postDiary s p b = Inr (resp', s2) \<and>
           Map_get (diaryByDate s2) d = Some replaced \<and>
           todo merged =
             (if body_todo b = JUndefined then todo (base_entry s d) else todo replaced) \<and>
           contents merged =
             (if body_contents b = JUndefined then contents (base_entry s d)
              else contents replaced) \<and>
           thanks merged =
             (if body_thanks b = JUndefined then thanks (base_entry s d) else thanks replaced) \<and>
           (Map_get (diaryByDate s) d \<noteq> None \<and> body_todo b = JUndefined \<and>
            body_contents b = JUndefined \<and> body_thanks b = JUndefined \<longrightarrow> s1 = s) \<and>
           (body_todo b = JUndefined \<and> body_thanks b = JUndefined \<longrightarrow>
            todo merged = todo (base_entry s d) \<and> thanks merged = thanks (base_entry s d))"
proof -
  from assms have date: "spec_normalizeDate (JStr p) = Some d"
    by (simp add: normalizeDate_eq)
  have noop: "s\<lparr>diaryByDate := Map_set (diaryByDate s) d (spec_merge (base_entry s d) b)\<rparr> = s"
    if "Map_get (diaryByDate s) d \<noteq> None" "body_todo b = JUndefined"
       "body_contents b = JUndefined" "body_thanks b = JUndefined"
  proof -
    from that obtain e where e: "Map_get (diaryByDate s) d = Some e" by auto
    with that have "spec_merge (base_entry s d) b = e"
      by (simp add: spec_merge_def base_entry_def)
    with e show ?thesis by (simp add: Map_set_same_value)
  qed
  show ?thesis
    using noop by (auto simp add: date putDiary_eq postDiary_eq Map_get_set_same spec_merge_def)
qed

text \<open>
  The specification's scenario: thanks alone is provided and the todo list and contents
  of the stored entry stay; and a merge with an empty body, which changes nothing.
\<close>

theorem merge_keeps_unprovided_fields_witness:
  "normalizeDate (JStr (str16 ''2024-05-01'')) = Inr (Some (str16 ''2024-05-01'')) \<and>
   (\<exists>resp s1.
      putDiary
        (initial_state\<lparr>diaryByDate :=
           [(str16 ''2024-05-01'',
             \<lparr>todo = JArr [JStr (str16 ''a''), JStr (str16 ''b''), JStr (str16 ''c'')],
              contents = JStr (str16 ''hi''), thanks = JStr []\<rparr>)]\<rparr>)
        (str16 ''2024-05-01'') (empty_body\<lparr>body_thanks := JStr (str16 ''grateful'')\<rparr>)
        = Inr (resp, s1) \<and>
      Map_get (diaryByDate s1) (str16 ''2024-05-01'') =
        Some \<lparr>todo = JArr [JStr (str16 ''a''), JStr (str16 ''b''), JStr (str16 ''c'')],
              contents = JStr (str16 ''hi''), thanks = JStr (str16 ''grateful'')\<rparr>) \<and>
   (\<exists>resp.
      putDiary
        (initial_state\<lparr>diaryByDate :=
           [(str16 ''2024-05-01'',
             \<lparr>todo = JArr [JStr (str16 ''a''), JStr (str16 ''b''), JStr (str16 ''c'')],
              contents = JStr (str16 ''hi''), thanks = JStr []\<rparr>)]\<rparr>)
        (str16 ''2024-05-01'') empty_body
        = Inr (resp,
               initial_state\<lparr>diaryByDate :=
                 [(str16 ''2024-05-01'',
                   \<lparr>todo = JArr [JStr (str16 ''a''), JStr (str16 ''b''), JStr (str16 ''c'')],
                    contents = JStr (str16 ''hi''), thanks = JStr []\<rparr>)]\<rparr>))"
proof -
  let ?d = "str16 ''2024-05-01''"
  let ?e = "\<lparr>todo = JArr [JStr (str16 ''a''), JStr (str16 ''b''), JStr (str16 ''c'')],
             contents = JStr (str16 ''hi''), thanks = JStr []\<rparr>"
  let ?s = "initial_state\<lparr>diaryByDate := [(?d, ?e)]\<rparr>"
  let ?b = "empty_body\<lparr>body_thanks := JStr (str16 ''grateful'')\<rparr>"
  have d1: "normalizeDate (JStr ?d) = Inr (Some ?d)"
    by (simp add: normalizeDate_eq spec_normalizeDate_def spec_date_shape_def str16_def
        trim_def isWhiteSpace_def isDigit_def hyphen_def)
  have base: "base_entry ?s ?d = ?e"
    by (simp add: base_entry_def Map_get_def)
  have grateful: "spec_text (JStr (str16 ''grateful'')) = str16 ''grateful''"
    by (simp add: spec_text_def nonblank_def str16_def trim_def isWhiteSpace_def)
  have posted: "postDiary ?s ?d ?b =
      Inr (Presence False False,
           ?s\<lparr>diaryByDate := Map_set (diaryByDate ?s) ?d
                 \<lparr>todo = JArr [], contents = JStr [], thanks = JStr (str16 ''grateful'')\<rparr>\<rparr>)"
    using d1 grateful
    by (simp add: postDiary_eq normalizeDate_eq spec_entry_def empty_body_def
        spec_normalizeTodo_def spec_text_def)
  from merge_keeps_unprovided_fields [OF d1, of ?s ?b]
  obtain resp s1 merged resp' s2 replaced where
    put: "putDiary ?s ?d ?b = Inr (resp, s1)" and
    got: "Map_get (diaryByDate s1) ?d = Some merged" and
    post': "postDiary ?s ?d ?b = Inr (resp', s2)" and
    rep: "Map_get (diaryByDate s2) ?d = Some replaced" and
    td: "todo merged = (if body_todo ?b = JUndefined then todo (base_entry ?s ?d) else todo replaced)" and
    co: "contents merged = (if body_contents ?b = JUndefined then contents (base_entry ?s ?d)
              else contents replaced)" and
    th: "thanks merged = (if body_thanks ?b = JUndefined then thanks (base_entry ?s ?d)
              else thanks replaced)"
    by blast
  from posted post' rep have "thanks replaced = JStr (str16 ''grateful'')"
    by (auto simp: Map_get_set_same)
  with td co th base have "merged = ?e\<lparr>thanks := JStr (str16 ''grateful'')\<rparr>"
    by (simp add: empty_body_def)
  with put got have first: "\<exists>resp s1. putDiary ?s ?d ?b = Inr (resp, s1) \<and>
      Map_get (diaryByDate s1) ?d = Some (?e\<lparr>thanks := JStr (str16 ''grateful'')\<rparr>)"
    by blast
  have stored: "Map_get (diaryByDate ?s) ?d \<noteq> None"
    by (simp add: Map_get_def)
  from merge_keeps_unprovided_fields [OF d1, of ?s empty_body] stored
  have second: "\<exists>resp. putDiary ?s ?d empty_body = Inr (resp, ?s)"
    by (auto simp: empty_body_def)
  from d1 first second show ?thesis by simp
qed

text \<open>
  Claim C3. In every state the server can reach, the summary (GET /Home) returns in
  \<open>haveContents\<close> exactly the stored dates whose entry has non-empty contents and in
  \<open>haveTodos\<close> exactly the stored dates whose entry has a non-empty todo list, each
  list sorted ascending in the lexicographic order of strings (and without
  repetition); a date whose entry has empty contents and an empty todo list is in
  neither list. The state is left as it was.
\<close>

theorem summarize_contract:
  assumes "reachable lc s"
  shows "\<exists>haveContents haveTodos.
           getHome s = Inr (Have_arrays haveContents haveTodos, s) \<and>
           getHaveArrays s = Inr (haveContents, haveTodos) \<and>
           sorted haveContents \<and> distinct haveContents \<and>
           set haveContents =
             {d. \<exists>e. Map_get (diaryByDate s) d = Some e \<and> contents e \<noteq> JStr []} \<and>
           sorted haveTodos \<and> distinct haveTodos \<and>
           set haveTodos =
             {d. \<exists>e. Map_get (diaryByDate s) d = Some e \<and> todo e \<noteq> JArr []} \<and>
           (\<forall>d e. Map_get (diaryByDate s) d = Some e \<and> contents e = JStr [] \<and> todo e = JArr []
              \<longrightarrow> d \<notin> set haveContents \<and> d \<notin> set haveTodos)"
proof -
  from assms have inv: "diary_invariant (diaryByDate s)"
    by (simp add: reachable_invariants)
  show ?thesis
    by (auto simp add: getHome_def getHaveArrays_eq have_dates_set [OF inv]
        have_dates_distinct [OF inv] simp del: set_map)
qed

text \<open>
  Three dates written out of order, one of them with neither contents nor todos, and a
  merge: the reached state and its summary.
\<close>

theorem summarize_contract_witness:
  "reachable ascii_toLowerCase
     (initial_state\<lparr>diaryByDate :=
        [(str16 ''2024-05-02'',
          \<lparr>todo = JArr [JStr (str16 ''z'')], contents = JStr (str16 ''note''), thanks = JStr []\<rparr>),
         (str16 ''2024-05-01'',
          \<lparr>todo = JArr [JStr (str16 ''a'')], contents = JStr [], thanks = JStr []\<rparr>),
         (str16 ''2024-04-30'',
          \<lparr>todo = JArr [], contents = JStr [], thanks = JStr []\<rparr>)]\<rparr>) \<and>
   getHome
     (initial_state\<lparr>diaryByDate :=
        [(str16 ''2024-05-02'',
          \<lparr>todo = JArr [JStr (str16 ''z'')], contents = JStr (str16 ''note''), thanks = JStr []\<rparr>),
         (str16 ''2024-05-01'',
          \<lparr>todo = JArr [JStr (str16 ''a'')], contents = JStr [], thanks = JStr []\<rparr>),
         (str16 ''2024-04-30'',
          \<lparr>todo = JArr [], contents = JStr [], thanks = JStr []\<rparr>)]\<rparr>)
   = Inr (Have_arrays [str16 ''2024-05-02''] [str16 ''2024-05-01'', str16 ''2024-05-02''],
          initial_state\<lparr>diaryByDate :=
        [(str16 ''2024-05-02'',
          \<lparr>todo = JArr [JStr (str16 ''z'')], contents = JStr (str16 ''note''), thanks = JStr []\<rparr>),
         (str16 ''2024-05-01'',
          \<lparr>todo = JArr [JStr (str16 ''a'')], contents = JStr [], thanks = JStr []\<rparr>),
         (str16 ''2024-04-30'',
          \<lparr>todo = JArr [], contents = JStr [], thanks = JStr []\<rparr>)]\<rparr>) \<and>
   sorted [str16 ''2024-05-01'', str16 ''2024-05-02'']"
proof -
  let ?lc = ascii_toLowerCase
  let ?e2 = "\<lparr>todo = JArr [], contents = JStr (str16 ''note''), thanks = JStr []\<rparr>"
  let ?e2' = "\<lparr>todo = JArr [JStr (str16 ''z'')], contents = JStr (str16 ''note''), thanks = JStr []\<rparr>"
  let ?e1 = "\<lparr>todo = JArr [JStr (str16 ''a'')], contents = JStr [], thanks = JStr []\<rparr>"
  let ?e0 = "\<lparr>todo = JArr [], contents = JStr [], thanks = JStr []\<rparr>"
  let ?s1 = "initial_state\<lparr>diaryByDate := [(str16 ''2024-05-02'', ?e2)]\<rparr>"
  let ?s2 = "initial_state\<lparr>diaryByDate := [(str16 ''2024-05-02'', ?e2), (str16 ''2024-05-01'', ?e1)]\<rparr>"
  let ?s3 = "initial_state\<lparr>diaryByDate :=
     [(str16 ''2024-05-02'', ?e2), (str16 ''2024-05-01'', ?e1), (str16 ''2024-04-30'', ?e0)]\<rparr>"
  let ?s4 = "initial_state\<lparr>diaryByDate :=
     [(str16 ''2024-05-02'', ?e2'), (str16 ''2024-05-01'', ?e1), (str16 ''2024-04-30'', ?e0)]\<rparr>"
  have h1: "handle ?lc initial_state
      (PostDiary (str16 ''2024-05-02'') (empty_body\<lparr>body_contents := JStr (str16 '' note '')\<rparr>))
      = Inr (Presence True False, ?s1)"
    by (simp add: postDiary_eq eval_simps)
  have h2: "handle ?lc ?s1
      (PostDiary (str16 ''2024-05-01'') (empty_body\<lparr>body_todo := JStr (str16 ''a'')\<rparr>))
      = Inr (Presence False True, ?s2)"
    by (simp add: postDiary_eq eval_simps)
  have h3: "handle ?lc ?s2 (PostDiary (str16 ''2024-04-30'') empty_body)
      = Inr (Presence False False, ?s3)"
    by (simp add: postDiary_eq eval_simps)
  have h4: "handle ?lc ?s3
      (PutDiary (str16 ''2024-05-02'') (empty_body\<lparr>body_todo := JArr [JStr (str16 ''z'')]\<rparr>))
      = Inr (Presence True True, ?s4)"
    by (simp add: putDiary_eq eval_simps)
  have reach: "reachable ?lc ?s4"
    using reachable_step [OF reachable_step [OF reachable_step [OF reachable_step
      [OF reachable_init h1] h2] h3] h4] .
  have home: "getHome ?s4 =
      Inr (Have_arrays [str16 ''2024-05-02''] [str16 ''2024-05-01'', str16 ''2024-05-02''], ?s4)"
    by (simp add: getHome_def getHaveArrays_eq eval_simps)
  from summarize_contract [OF reach] obtain haveContents haveTodos where
    result: "getHome ?s4 = Inr (Have_arrays haveContents haveTodos, ?s4)" and
    ordered: "sorted haveTodos"
    by blast
  from trans [OF result [symmetric] home]
  have "haveTodos = [str16 ''2024-05-01'', str16 ''2024-05-02'']"
    by auto
  with ordered have "sorted [str16 ''2024-05-01'', str16 ''2024-05-02'']"
    by simp
  with reach home show ?thesis by blast
qed

text \<open>
  Claim C4. For every input value, \<open>normalizeDate\<close> returns the trimmed input when the
  input is a non-empty string whose trimmed form is four digits, a hyphen, two digits,
  a hyphen and two digits, and the sentinel (\<open>null\<close>) for every other input; it never
  throws. No calendar check is made: \<open>2024-13-99\<close> is accepted.
\<close>

theorem normalizeDate_contract:
  "normalizeDate v = Inr (spec_normalizeDate v) \<and>
   normalizeDate (JStr (str16 ''2024-13-99'')) = Inr (Some (str16 ''2024-13-99''))"
proof
  show "normalizeDate v = Inr (spec_normalizeDate v)"
    by (rule normalizeDate_eq)
  show "normalizeDate (JStr (str16 ''2024-13-99'')) = Inr (Some (str16 ''2024-13-99''))"
    by (simp add: normalizeDate_eq spec_normalizeDate_def spec_date_shape_def str16_def
        trim_def isWhiteSpace_def isDigit_def hyphen_def)
qed

text \<open>
  The contract at a padded date, a wrong length, a non-digit, the empty string and two
  values that are not strings.
\<close>

theorem normalizeDate_contract_witness:
  "normalizeDate (JStr (str16 '' 2024-05-01 '')) = Inr (Some (str16 ''2024-05-01'')) \<and>
   normalizeDate (JStr (str16 ''2024-5-01'')) = Inr None \<and>
   normalizeDate (JStr (str16 ''2024-05-0a'')) = Inr None \<and>
   normalizeDate (JStr []) = Inr None \<and>
   normalizeDate (JNum (str16 ''20240501'')) = Inr None \<and>
   normalizeDate JUndefined = Inr None"
  using normalizeDate_contract [of "JStr (str16 '' 2024-05-01 '')"]
    normalizeDate_contract [of "JStr (str16 ''2024-5-01'')"]
    normalizeDate_contract [of "JStr (str16 ''2024-05-0a'')"]
    normalizeDate_contract [of "JStr []"]
    normalizeDate_contract [of "JNum (str16 ''20240501'')"]
    normalizeDate_contract [of JUndefined]
  by (simp add: spec_normalizeDate_def spec_date_shape_def str16_def
        trim_def isWhiteSpace_def isDigit_def hyphen_def)

text \<open>
  Claim C5. For every input value, \<open>normalizeTodo\<close> returns without throwing: for an
  array, its string-typed elements trimmed, the empty results dropped, in their
  original order; for a string, its pieces between commas trimmed, the empty pieces
  dropped, in order; for any other value (an absent one too), the empty sequence.
  The pieces of a string are what \<open>split\<close> cuts: joined by commas they give the string
  back, and none of them holds a comma.
\<close>

theorem normalizeTodo_contract:
  "normalizeTodo v = Inr (spec_normalizeTodo v) \<and>
   (\<forall>s. join_comma (js_split comma s) = s \<and> (\<forall>p\<in>set (js_split comma s). comma \<notin> set p))"
  using js_split_pieces by (simp add: normalizeTodo_eq js_split_join)

text \<open>The contract at the specification's scenario, at a mixed array and at two other values.\<close>

theorem normalizeTodo_contract_witness:
  "normalizeTodo (JStr (str16 ''a, b ,,c'')) = Inr [str16 ''a'', str16 ''b'', str16 ''c''] \<and>
   normalizeTodo (JArr [JStr (str16 '' x ''), JNum (str16 ''3''), JStr (str16 ''  ''), JNull, JStr (str16 ''y,z'')])
     = Inr [str16 ''x'', str16 ''y,z''] \<and>
   normalizeTodo JUndefined = Inr [] \<and>
   normalizeTodo (JObj []) = Inr [] \<and>
   js_split comma (str16 ''a,,b'') = [str16 ''a'', [], str16 ''b'']"
  using normalizeTodo_contract [of "JStr (str16 ''a, b ,,c'')"]
    normalizeTodo_contract [of "JArr [JStr (str16 '' x ''), JNum (str16 ''3''), JStr (str16 ''  ''), JNull, JStr (str16 ''y,z'')]"]
    normalizeTodo_contract [of JUndefined]
    normalizeTodo_contract [of "JObj []"]
  by (simp add: spec_normalizeTodo_def js_split_def comma_def str16_def trim_def isWhiteSpace_def)

text \<open>
  Claim C6. \<open>normalizeTodo\<close> is idempotent: normalizing the sequence it returned for
  any value returns that same sequence; and a sequence that is already normalized
  (strings that are trimmed and not empty) is returned unchanged.
\<close>

theorem normalizeTodo_idempotent:
  "bindE (normalizeTodo v) (\<lambda>ys. normalizeTodo (JArr (map JStr ys))) = normalizeTodo v \<and>
   ((\<forall>t\<in>set ys. trim t = t \<and> t \<noteq> []) \<longrightarrow> normalizeTodo (JArr (map JStr ys)) = Inr ys)"
  by (simp add: normalizeTodo_eq spec_normalizeTodo_idem normalized_list_fixed)

text \<open>Idempotence at the sequence of the specification's scenario.\<close>

theorem normalizeTodo_idempotent_witness:
  "normalizeTodo (JStr (str16 ''a, b ,,c'')) = Inr [str16 ''a'', str16 ''b'', str16 ''c''] \<and>
   normalizeTodo (JArr (map JStr [str16 ''a'', str16 ''b'', str16 ''c'']))
     = Inr [str16 ''a'', str16 ''b'', str16 ''c'']"
proof -
  have fixed: "\<forall>t\<in>set [str16 ''a'', str16 ''b'', str16 ''c'']. trim t = t \<and> t \<noteq> []"
    by (simp add: str16_def trim_def isWhiteSpace_def)
  have first: "normalizeTodo (JStr (str16 ''a, b ,,c'')) = Inr [str16 ''a'', str16 ''b'', str16 ''c'']"
    by (simp add: normalizeTodo_def js_split_def comma_def str16_def trim_def isWhiteSpace_def)
  from fixed
    normalizeTodo_idempotent [of "JStr (str16 ''a, b ,,c'')" "[str16 ''a'', str16 ''b'', str16 ''c'']"]
  have "normalizeTodo (JArr (map JStr [str16 ''a'', str16 ''b'', str16 ''c'']))
     = Inr [str16 ''a'', str16 ''b'', str16 ''c'']"
    by blast
  with first show ?thesis by simp
qed

text \<open>
  Claim C7. Every entry the diary store ever holds has its three fields present and not
  \<open>null\<close>: the todo field is an array of strings, contents and thanks are strings.
  The invariant holds in every state the server can reach, and the full write and the
  merge each preserve it from any store that has it. Raw input that is absent or not a
  string is normalized to the empty string (for the todo list: input that is neither
  an array nor a string, to the empty sequence) before it is stored.
\<close>

theorem stored_entries_wellformed:
  "(reachable lc s \<and> Map_get (diaryByDate s) d = Some e \<longrightarrow> wellformed_entry e) \<and>
   ((\<forall>d e. Map_get (diaryByDate s) d = Some e \<longrightarrow> wellformed_entry e) \<and>
    (postDiary s p b = Inr (resp, s') \<or> putDiary s p b = Inr (resp, s')) \<longrightarrow>
    (\<forall>d e. Map_get (diaryByDate s') d = Some e \<longrightarrow> wellformed_entry e)) \<and>
   (typeof v \<noteq> TString \<longrightarrow> trimOrEmpty v = Inr []) \<and>
   (typeof v \<noteq> TString \<and> (\<forall>xs. v \<noteq> JArr xs) \<longrightarrow> normalizeTodo v = Inr []) \<and>
   wellformed_entry default_entry"
proof (intro conjI impI)
  show "wellformed_entry e" if "reachable lc s \<and> Map_get (diaryByDate s) d = Some e"
    using that reachable_wellformed by blast
  show "\<forall>d e. Map_get (diaryByDate s') d = Some e \<longrightarrow> wellformed_entry e"
    if "(\<forall>d e. Map_get (diaryByDate s) d = Some e \<longrightarrow> wellformed_entry e) \<and>
        (postDiary s p b = Inr (resp, s') \<or> putDiary s p b = Inr (resp, s'))"
    using that postDiary_wellformed putDiary_wellformed by blast
  show "trimOrEmpty v = Inr []" if "typeof v \<noteq> TString"
    using that by (cases v) (simp_all add: trimOrEmpty_eq spec_text_def)
  show "normalizeTodo v = Inr []" if "typeof v \<noteq> TString \<and> (\<forall>xs. v \<noteq> JArr xs)"
    using that by (cases v) (simp_all add: normalizeTodo_def)
  show "wellformed_entry default_entry"
    by (simp add: normalized_wellformed normalized_default_entry)
qed

text \<open>
  A full write whose todo is a number, whose contents is \<open>null\<close> and whose thanks is
  absent: the state it reaches and the entry it stores.
\<close>

theorem stored_entries_wellformed_witness:
  "reachable ascii_toLowerCase
     (initial_state\<lparr>diaryByDate :=
        [(str16 ''2024-05-01'', \<lparr>todo = JArr [], contents = JStr [], thanks = JStr []\<rparr>)]\<rparr>) \<and>
   postDiary initial_state (str16 ''2024-05-01'')
     (empty_body\<lparr>body_todo := JNum (str16 ''5''), body_contents := JNull\<rparr>) =
     Inr (Presence False False,
          initial_state\<lparr>diaryByDate :=
            [(str16 ''2024-05-01'', \<lparr>todo = JArr [], contents = JStr [], thanks = JStr []\<rparr>)]\<rparr>) \<and>
   wellformed_entry \<lparr>todo = JArr [], contents = JStr [], thanks = JStr []\<rparr> \<and>
   trimOrEmpty JNull = Inr [] \<and> trimOrEmpty JUndefined = Inr [] \<and>
   normalizeTodo (JNum (str16 ''5'')) = Inr []"
proof -
  let ?lc = ascii_toLowerCase
  let ?d = "str16 ''2024-05-01''"
  let ?e = "\<lparr>todo = JArr [], contents = JStr [], thanks = JStr []\<rparr>"
  let ?s = "initial_state\<lparr>diaryByDate := [(?d, ?e)]\<rparr>"
  let ?b = "empty_body\<lparr>body_todo := JNum (str16 ''5''), body_contents := JNull\<rparr>"
  have posted: "postDiary initial_state ?d ?b = Inr (Presence False False, ?s)"
    by (simp add: postDiary_eq eval_simps)
  then have "handle ?lc initial_state (PostDiary ?d ?b) = Inr (Presence False False, ?s)"
    by simp
  from reachable_step [OF reachable_init this] have reach: "reachable ?lc ?s" .
  have stored: "Map_get (diaryByDate ?s) ?d = Some ?e"
    by (simp add: Map_get_def)
  from stored_entries_wellformed [of ?lc ?s ?d ?e ?d ?b "Presence False False" ?s JNull]
    reach stored
  have wf: "wellformed_entry ?e" and null: "trimOrEmpty JNull = Inr []" by simp_all
  from stored_entries_wellformed [of ?lc ?s ?d ?e ?d ?b "Presence False False" ?s JUndefined]
  have undef: "trimOrEmpty JUndefined = Inr []" by simp
  from stored_entries_wellformed [of ?lc ?s ?d ?e ?d ?b "Presence False False" ?s "JNum (str16 ''5'')"]
  have num: "normalizeTodo (JNum (str16 ''5'')) = Inr []" by simp
  from reach posted wf null undef num show ?thesis by simp
qed

text \<open>
  Claim C8. A request that is rejected changes no state. POST, GET and PUT
  /diary/:date with an invalid date answer 400 and return the state they were given,
  whatever the diary store holds; POST /SignUp with a missing or empty field answers
  400, and with an e-mail that has a record 409, and each leaves the account store,
  the counter and the login state as they were. More generally, every handler that
  answers with a failure status returns the state unchanged.
\<close>

theorem rejected_requests_change_nothing:
  "(normalizeDate (JStr p) = Inr None \<longrightarrow>
      postDiary s p b = Inr (Failure 400 Invalid_date, s) \<and>
      getDiary s p = Inr (Failure 400 Invalid_date, s) \<and>
      putDiary s p b = Inr (Failure 400 Invalid_date, s)) \<and>
   (body_email b = JUndefined \<or> body_email b = JStr [] \<or>
    body_name b = JUndefined \<or> body_name b = JStr [] \<or>
    body_password b = JUndefined \<or> body_password b = JStr [] \<longrightarrow>
      signUp lc s b = Inr (Failure 400 Fields_required, s)) \<and>
   (\<forall>e. body_email b = JStr e \<and> nonblank (body_email b) \<and> nonblank (body_name b) \<and>
        nonblank (body_password b) \<and> Map_has (membersByEmail s) (lc (trim e)) \<longrightarrow>
      signUp lc s b = Inr (Failure 409 Email_exists, s)) \<and>
   (\<forall>resp s'. signUp lc s b = Inr (resp, s') \<and> (status resp = 400 \<or> status resp = 409) \<longrightarrow>
      s' = s) \<and>
   (\<forall>resp s'. handle lc s r = Inr (resp, s') \<and> status resp \<noteq> 200 \<longrightarrow> s' = s)"
proof (intro conjI impI allI)
  assume "normalizeDate (JStr p) = Inr None"
  then have none: "spec_normalizeDate (JStr p) = None" by (simp add: normalizeDate_eq)
  then show "postDiary s p b = Inr (Failure 400 Invalid_date, s)"
    and "getDiary s p = Inr (Failure 400 Invalid_date, s)"
    and "putDiary s p b = Inr (Failure 400 Invalid_date, s)"
    by (simp_all add: postDiary_eq getDiary_eq putDiary_eq)
next
  assume "body_email b = JUndefined \<or> body_email b = JStr [] \<or>
    body_name b = JUndefined \<or> body_name b = JStr [] \<or>
    body_password b = JUndefined \<or> body_password b = JStr []"
  then have "\<not> (nonblank (body_email b) \<and> nonblank (body_name b) \<and> nonblank (body_password b))"
    by (auto simp: nonblank_def)
  then show "signUp lc s b = Inr (Failure 400 Fields_required, s)"
    by (simp add: signUp_eq)
next
  fix e
  assume "body_email b = JStr e \<and> nonblank (body_email b) \<and> nonblank (body_name b) \<and>
        nonblank (body_password b) \<and> Map_has (membersByEmail s) (lc (trim e))"
  then show "signUp lc s b = Inr (Failure 409 Email_exists, s)"
    by (auto simp add: signUp_eq)
next
  fix resp s'
  assume "signUp lc s b = Inr (resp, s') \<and> (status resp = 400 \<or> status resp = 409)"
  then show "s' = s"
    using handle_failure_keeps_state [of lc s "PostSignUp b" resp s'] by auto
next
  fix resp s'
  assume "handle lc s r = Inr (resp, s') \<and> status resp \<noteq> 200"
  then show "s' = s"
    using handle_failure_keeps_state by blast
qed

text \<open>
  The specification's scenario \<open>/diary/not-a-date\<close> on a store with an entry, a sign-up
  without a name, and a sign-up with an e-mail already registered.
\<close>

theorem rejected_requests_change_nothing_witness:
  "normalizeDate (JStr (str16 ''not-a-date'')) = Inr None \<and>
   postDiary
     (initial_state\<lparr>diaryByDate :=
        [(str16 ''2024-05-01'', \<lparr>todo = JArr [], contents = JStr (str16 ''hi''), thanks = JStr []\<rparr>)]\<rparr>)
     (str16 ''not-a-date'') (empty_body\<lparr>body_contents := JStr (str16 ''x'')\<rparr>) =
     Inr (Failure 400 Invalid_date,
          initial_state\<lparr>diaryByDate :=
            [(str16 ''2024-05-01'', \<lparr>todo = JArr [], contents = JStr (str16 ''hi''), thanks = JStr []\<rparr>)]\<rparr>) \<and>
   signUp ascii_toLowerCase initial_state
     (empty_body\<lparr>body_email := JStr (str16 ''ann@example.com''), body_password := JStr (str16 ''pw'')\<rparr>) =
     Inr (Failure 400 Fields_required, initial_state) \<and>
   signUp ascii_toLowerCase
     (initial_state\<lparr>nextMemberId := 2,
        membersByEmail :=
          [(str16 ''ann@example.com'',
            \<lparr>memberId = 1, name = JStr (str16 ''Ann''), email = str16 ''ann@example.com'',
             password = JStr (str16 ''pw'')\<rparr>)],
        loginState := [(str16 ''ann@example.com'', 0)]\<rparr>)
     (empty_body\<lparr>body_email := JStr (str16 '' ANN@example.com''), body_name := JStr (str16 ''A''),
                  body_password := JStr (str16 ''x'')\<rparr>) =
     Inr (Failure 409 Email_exists,
          initial_state\<lparr>nextMemberId := 2,
            membersByEmail :=
              [(str16 ''ann@example.com'',
                \<lparr>memberId = 1, name = JStr (str16 ''Ann''), email = str16 ''ann@example.com'',
                 password = JStr (str16 ''pw'')\<rparr>)],
            loginState := [(str16 ''ann@example.com'', 0)]\<rparr>)"
proof -
  let ?lc = ascii_toLowerCase
  let ?s = "initial_state\<lparr>diaryByDate :=
        [(str16 ''2024-05-01'', \<lparr>todo = JArr [], contents = JStr (str16 ''hi''), thanks = JStr []\<rparr>)]\<rparr>"
  let ?b = "empty_body\<lparr>body_contents := JStr (str16 ''x'')\<rparr>"
  let ?b1 = "empty_body\<lparr>body_email := JStr (str16 ''ann@example.com''),
                         body_password := JStr (str16 ''pw'')\<rparr>"
  let ?s2 = "initial_state\<lparr>nextMemberId := 2,
        membersByEmail :=
          [(str16 ''ann@example.com'',
            \<lparr>memberId = 1, name = JStr (str16 ''Ann''), email = str16 ''ann@example.com'',
             password = JStr (str16 ''pw'')\<rparr>)],
        loginState := [(str16 ''ann@example.com'', 0)]\<rparr>"
  let ?b2 = "empty_body\<lparr>body_email := JStr (str16 '' ANN@example.com''),
                         body_name := JStr (str16 ''A''), body_password := JStr (str16 ''x'')\<rparr>"
  have bad: "normalizeDate (JStr (str16 ''not-a-date'')) = Inr None"
    by (simp add: normalizeDate_eq eval_simps)
  from rejected_requests_change_nothing [of "str16 ''not-a-date''" ?s ?b ?lc GetRoot] bad
  have post: "postDiary ?s (str16 ''not-a-date'') ?b = Inr (Failure 400 Invalid_date, ?s)"
    by blast
  have "body_name ?b1 = JUndefined" by (simp add: empty_body_def)
  with rejected_requests_change_nothing [of "str16 ''not-a-date''" initial_state ?b1 ?lc GetRoot]
  have missing: "signUp ?lc initial_state ?b1 = Inr (Failure 400 Fields_required, initial_state)"
    by blast
  have "body_email ?b2 = JStr (str16 '' ANN@example.com'') \<and> nonblank (body_email ?b2) \<and>
        nonblank (body_name ?b2) \<and> nonblank (body_password ?b2) \<and>
        Map_has (membersByEmail ?s2) (?lc (trim (str16 '' ANN@example.com'')))"
    by (simp add: eval_simps ascii_toLowerCase_def)
  with rejected_requests_change_nothing [of "str16 ''not-a-date''" ?s2 ?b2 ?lc GetRoot]
  have dup: "signUp ?lc ?s2 ?b2 = Inr (Failure 409 Email_exists, ?s2)"
    by blast
  from bad post missing dup show ?thesis by simp
qed

text \<open>
  Claim C9, as the specification states it, asks only for non-empty strings. A sign-up
  whose e-mail is a single space is a request with three non-empty strings and no
  record under its key, and it is neither a conflict nor a registration: the handler
  answers 400, since \<open>isValidString\<close> trims before it looks at the length.
\<close>

theorem register_blank_email_counterexample:
  "str16 '' '' \<noteq> [] \<and> str16 ''Ann'' \<noteq> [] \<and> str16 ''pw'' \<noteq> [] \<and>
   \<not> Map_has (membersByEmail initial_state) (ascii_toLowerCase (trim (str16 '' ''))) \<and>
   signUp ascii_toLowerCase initial_state
     (empty_body\<lparr>body_email := JStr (str16 '' ''), body_name := JStr (str16 ''Ann''),
                  body_password := JStr (str16 ''pw'')\<rparr>) =
     Inr (Failure 400 Fields_required, initial_state)"
  by (simp add: signUp_eq eval_simps ascii_toLowerCase_def)

text \<open>
  Claim C9, amended. Register (POST /SignUp) with e-mail, name and credential that are
  strings with a non-whitespace character each rejects with a conflict exactly when a
  record exists under the lowercase-trimmed e-mail, leaving the state as it was; and
  otherwise creates a record with the counter's value as its id, increments the
  counter, stores the record under the lowercase-trimmed e-mail and sets that
  e-mail's login state to 0 (false). Registering again with an e-mail of the same
  lowercase-trimmed form, in whatever letter case, is then a conflict. The id is
  fresh: in every state the server can reach, every stored record has an id below
  the counter.
\<close>

theorem register_contract:
  assumes "body_email b = JStr e" and "body_name b = JStr n" and "body_password b = JStr pw"
    and "nonblank (JStr e)" and "nonblank (JStr n)" and "nonblank (JStr pw)"
  shows "(Map_has (membersByEmail s) (lc (trim e)) \<longrightarrow>
            signUp lc s b = Inr (Failure 409 Email_exists, s)) \<and>
         (\<not> Map_has (membersByEmail s) (lc (trim e)) \<longrightarrow>
            (\<exists>s'. signUp lc s b =
                     Inr (Signed_up (nextMemberId s) (JStr (trim n)) (lc (trim e)), s') \<and>
                   nextMemberId s' = nextMemberId s + 1 \<and>
                   Map_get (membersByEmail s') (lc (trim e)) =
                     Some \<lparr>memberId = nextMemberId s, name = JStr (trim n),
                           email = lc (trim e), password = JStr pw\<rparr> \<and>
                   Map_get (loginState s') (lc (trim e)) = Some 0 \<and>
                   (\<forall>b2 e2. body_email b2 = JStr e2 \<and> nonblank (body_email b2) \<and>
                      nonblank (body_name b2) \<and> nonblank (body_password b2) \<and>
                      lc (trim e2) = lc (trim e) \<longrightarrow>
                      signUp lc s' b2 = Inr (Failure 409 Email_exists, s')))) \<and>
         (reachable lc s \<longrightarrow>
            (\<forall>k m. Map_get (membersByEmail s) k = Some m \<longrightarrow> memberId m < nextMemberId s))"
  using assms reachable_member_ids [of lc s]
  by (auto simp add: signUp_eq Map_get_set_same Map_has_get)

text \<open>
  The specification's scenario: the same address registered twice, in different
  letter case, from the initial state.
\<close>

theorem register_contract_witness:
  "nonblank (JStr (str16 '' Ann@Example.com '')) \<and> nonblank (JStr (str16 '' Ann '')) \<and>
   nonblank (JStr (str16 ''pw'')) \<and>
   \<not> Map_has (membersByEmail initial_state)
        (ascii_toLowerCase (trim (str16 '' Ann@Example.com ''))) \<and>
   (\<exists>s'. signUp ascii_toLowerCase initial_state
            (empty_body\<lparr>body_email := JStr (str16 '' Ann@Example.com ''),
                         body_name := JStr (str16 '' Ann ''),
                         body_password := JStr (str16 ''pw'')\<rparr>) =
            Inr (Signed_up 1 (JStr (str16 ''Ann'')) (str16 ''ann@example.com''), s') \<and>
          nextMemberId s' = 2 \<and>
          Map_get (membersByEmail s') (str16 ''ann@example.com'') =
            Some \<lparr>memberId = 1, name = JStr (str16 ''Ann''), email = str16 ''ann@example.com'',
                  password = JStr (str16 ''pw'')\<rparr> \<and>
          Map_get (loginState s') (str16 ''ann@example.com'') = Some 0 \<and>
          signUp ascii_toLowerCase s'
            (empty_body\<lparr>body_email := JStr (str16 ''ANN@EXAMPLE.COM''),
                         body_name := JStr (str16 ''Other''),
                         body_password := JStr (str16 ''x'')\<rparr>) =
            Inr (Failure 409 Email_exists, s'))"
proof -
  let ?lc = ascii_toLowerCase
  let ?b = "empty_body\<lparr>body_email := JStr (str16 '' Ann@Example.com ''),
                         body_name := JStr (str16 '' Ann ''),
                         body_password := JStr (str16 ''pw'')\<rparr>"
  have fields: "body_email ?b = JStr (str16 '' Ann@Example.com '')"
    "body_name ?b = JStr (str16 '' Ann '')" "body_password ?b = JStr (str16 ''pw'')"
    by (simp_all add: empty_body_def)
  have valid: "nonblank (JStr (str16 '' Ann@Example.com ''))" "nonblank (JStr (str16 '' Ann ''))"
    "nonblank (JStr (str16 ''pw''))"
    by (simp_all add: eval_simps)
  have key: "?lc (trim (str16 '' Ann@Example.com '')) = str16 ''ann@example.com''"
    by (simp add: eval_simps ascii_toLowerCase_def)
  have name: "trim (str16 '' Ann '') = str16 ''Ann''"
    by (simp add: eval_simps)
  have new: "\<not> Map_has (membersByEmail initial_state) (?lc (trim (str16 '' Ann@Example.com '')))"
    by (simp add: Map_has_def initial_state_def)
  have one: "nextMemberId initial_state = 1"
    by (simp add: initial_state_def)
  let ?b2 = "empty_body\<lparr>body_email := JStr (str16 ''ANN@EXAMPLE.COM''),
                          body_name := JStr (str16 ''Other''),
                          body_password := JStr (str16 ''x'')\<rparr>"
  have second: "body_email ?b2 = JStr (str16 ''ANN@EXAMPLE.COM'') \<and> nonblank (body_email ?b2) \<and>
      nonblank (body_name ?b2) \<and> nonblank (body_password ?b2) \<and>
      ?lc (trim (str16 ''ANN@EXAMPLE.COM'')) = ?lc (trim (str16 '' Ann@Example.com ''))"
    by (simp add: eval_simps ascii_toLowerCase_def)
  from register_contract [OF fields valid, of initial_state ?lc] new
  obtain s' where
    made: "signUp ?lc initial_state ?b =
             Inr (Signed_up (nextMemberId initial_state) (JStr (trim (str16 '' Ann '')))
                    (?lc (trim (str16 '' Ann@Example.com ''))), s')" and
    counter: "nextMemberId s' = nextMemberId initial_state + 1" and
    stored: "Map_get (membersByEmail s') (?lc (trim (str16 '' Ann@Example.com ''))) =
               Some \<lparr>memberId = nextMemberId initial_state, name = JStr (trim (str16 '' Ann '')),
                     email = ?lc (trim (str16 '' Ann@Example.com '')),
                     password = JStr (str16 ''pw'')\<rparr>" and
    flag: "Map_get (loginState s') (?lc (trim (str16 '' Ann@Example.com ''))) = Some 0" and
    again: "\<forall>b2 e2. body_email b2 = JStr e2 \<and> nonblank (body_email b2) \<and>
              nonblank (body_name b2) \<and> nonblank (body_password b2) \<and>
              ?lc (trim e2) = ?lc (trim (str16 '' Ann@Example.com '')) \<longrightarrow>
              signUp ?lc s' b2 = Inr (Failure 409 Email_exists, s')"
    by blast
  from again second
  have twice: "signUp ?lc s' ?b2 = Inr (Failure 409 Email_exists, s')"
    by blast
  from made counter stored flag twice valid new show ?thesis
    unfolding key name one by auto
qed

text \<open>
  Claim C10. The read (GET /diary/:date) never changes the state. With a valid date it
  answers the stored entry, or the empty entry \<open>{todo: [], contents: "", thanks: ""}\<close>
  when the date has none, and creates no entry: the diary store, the account store,
  the counter and the login state are after the read what they were before it.
\<close>

theorem read_changes_nothing:
  "(normalizeDate (JStr p) = Inr (Some d) \<longrightarrow>
      getDiary s p = Inr (Entry_json (base_entry s d), s) \<and>
      (Map_get (diaryByDate s) d = None \<longrightarrow>
         base_entry s d = \<lparr>todo = JArr [], contents = JStr [], thanks = JStr []\<rparr>) \<and>
      (\<forall>e. Map_get (diaryByDate s) d = Some e \<longrightarrow> base_entry s d = e)) \<and>
   (\<exists>resp. getDiary s p = Inr (resp, s))"
  by (auto simp: normalizeDate_eq getDiary_eq base_entry_def default_entry_def split: option.splits)

text \<open>The specification's scenario: a date that was never written.\<close>

theorem read_changes_nothing_witness:
  "normalizeDate (JStr (str16 ''1999-12-31'')) = Inr (Some (str16 ''1999-12-31'')) \<and>
   getDiary initial_state (str16 ''1999-12-31'') =
     Inr (Entry_json \<lparr>todo = JArr [], contents = JStr [], thanks = JStr []\<rparr>, initial_state) \<and>
   Map_get (diaryByDate initial_state) (str16 ''1999-12-31'') = None"
proof -
  have d1: "normalizeDate (JStr (str16 ''1999-12-31'')) = Inr (Some (str16 ''1999-12-31''))"
    by (simp add: normalizeDate_eq spec_normalizeDate_def spec_date_shape_def str16_def
        trim_def isWhiteSpace_def isDigit_def hyphen_def)
  have none: "Map_get (diaryByDate initial_state) (str16 ''1999-12-31'') = None"
    by (simp add: initial_state_def Map_get_def)
  from read_changes_nothing [of "str16 ''1999-12-31''" "str16 ''1999-12-31''" initial_state] d1 none
  show ?thesis by simp
qed

end
